theory Spec2Isabelle
  imports Complex_Main "HOL-Library.Word" "HOL-Library.Sublist"
begin

section \<open>Conventions of the embedding\<close>

text \<open>
  The 7 Days to Die modlet combiner is a Python program. Its values are modelled as
  follows.
  \<^item> A Python \<open>str\<close> is a \<open>string\<close>; each \<open>char\<close> stands for one code point
    below 256, so \<open>length\<close> is Python's \<open>len\<close>. Bytes are \<open>8 word\<close>.
  \<^item> A Python \<open>int\<close> is an \<open>int\<close> (a length or a counter a \<open>nat\<close>).
  \<^item> A Python \<open>float\<close> is the \<open>rat\<close> it denotes. Every float operation of the
    source is the exact operation followed by rounding; the rounding is the parameter
    \<open>rnd\<close> of the functions that compute with floats.
  \<^item> An exception is a value of \<open>py_error\<close>, returned as \<open>Inl\<close>.
  \<^item> A \<open>dict\<close> is an association list in insertion order, as Python iterates it.
\<close>

type_synonym path = string

datatype py_error = UnicodeEncodeError | ZeroDivisionError | UnboundLocalError | TypeError | ValueError

section \<open>Strings\<close>

text \<open>
  \<open>str.isspace\<close> on the code points below 256, as \<open>str.strip\<close> and \<open>str.lstrip\<close> use it.
\<close>

definition is_space :: "char \<Rightarrow> bool" where
  "is_space c = (let n = (of_char c :: nat) in
     (9 \<le> n \<and> n \<le> 13) \<or> (28 \<le> n \<and> n \<le> 32) \<or> n = 133 \<or> n = 160)"

definition lstrip :: "string \<Rightarrow> string" where
  "lstrip s = dropWhile is_space s"

definition strip :: "string \<Rightarrow> string" where
  "strip s = rev (dropWhile is_space (rev (dropWhile is_space s)))"

text \<open>\<open>sep.join(parts)\<close> and \<open>s.split(d)\<close> for a one-character separator.\<close>

fun join :: "string \<Rightarrow> string list \<Rightarrow> string" where
  "join sep [] = []"
| "join sep [x] = x"
| "join sep (x # y # zs) = x @ sep @ join sep (y # zs)"

fun split :: "char \<Rightarrow> string \<Rightarrow> string list" where
  "split d [] = [[]]"
| "split d (c # cs) =
     (if c = d then [] # split d cs
      else (case split d cs of [] \<Rightarrow> [[c]] | w # ws \<Rightarrow> (c # w) # ws))"

text \<open>\<open>str.lower\<close> on the code points below 256.\<close>

definition lower_char :: "char \<Rightarrow> char" where
  "lower_char c = (let n = (of_char c :: nat) in
     if (65 \<le> n \<and> n \<le> 90) \<or> (192 \<le> n \<and> n \<le> 222 \<and> n \<noteq> 215) then char_of (n + 32) else c)"

definition lower :: "string \<Rightarrow> string" where
  "lower s = map lower_char s"

section \<open>The intermediate store (db\_processor.py)\<close>

subsection \<open>Encoding at rest\<close>

text \<open>
  \<open>data.encode('utf-8')\<close> and \<open>base64.b64encode\<close>, which \<^verbatim>\<open>_encode_data\<close> composes when
  the configured encoding is \<open>base64\<close>.
\<close>

definition utf8_encode :: "string \<Rightarrow> 8 word list" where
  "utf8_encode s = concat (map (\<lambda>c. let n = (of_char c :: nat) in
       if n < 128 then [of_nat n] else [of_nat (192 + n div 64), of_nat (128 + n mod 64)]) s)"

definition b64_alphabet :: string where
  "b64_alphabet = ''ABCDEFGHIJKLMNOPQRSTUVWXYZabcdefghijklmnopqrstuvwxyz0123456789+/''"

definition b64_char :: "nat \<Rightarrow> char" where
  "b64_char n = b64_alphabet ! n"

fun b64encode :: "8 word list \<Rightarrow> string" where
  "b64encode (a # b # c # bs) =
     [b64_char (unat a div 4), b64_char (unat a mod 4 * 16 + unat b div 16),
      b64_char (unat b mod 16 * 4 + unat c div 64), b64_char (unat c mod 64)] @ b64encode bs"
| "b64encode [a, b] =
     [b64_char (unat a div 4), b64_char (unat a mod 4 * 16 + unat b div 16),
      b64_char (unat b mod 16 * 4), CHR ''='']"
| "b64encode [a] = [b64_char (unat a div 4), b64_char (unat a mod 4 * 16), CHR ''='', CHR ''='']"
| "b64encode [] = []"

definition encode_data :: "string \<Rightarrow> string \<Rightarrow> string" where
  "encode_data encoding data =
     (if encoding = ''base64'' then b64encode (utf8_encode data) else data)"

text \<open>
  \<^verbatim>\<open>_decode_data\<close>. The library call \<open>base64.b64decode(b).decode('utf-8')\<close> on ASCII
  bytes is the parameter \<open>b64decode_utf8\<close>: \<open>None\<close> when it raises \<open>binascii.Error\<close> or
  \<open>UnicodeDecodeError\<close>, the two exceptions the source catches. \<open>data.encode('ascii')\<close>
  is evaluated first, inside the \<open>try\<close>, and raises \<open>UnicodeEncodeError\<close> on a code point
  above 127; no \<open>except\<close> clause of the source names that exception.
\<close>

definition is_ascii :: "string \<Rightarrow> bool" where
  "is_ascii data = list_all (\<lambda>c. (of_char c :: nat) < 128) data"

definition decode_data :: "(string \<Rightarrow> string option) \<Rightarrow> string \<Rightarrow> string \<Rightarrow> py_error + string" where
  "decode_data b64decode_utf8 encoding data =
     (if data = [] then Inr []
      else if encoding = ''base64'' then
        (if \<not> is_ascii data then Inl UnicodeEncodeError
         else case b64decode_utf8 data of
                Some decoded \<Rightarrow> Inr decoded
              | None \<Rightarrow>
                  if is_ascii data then Inr data
                  else Inr (if 50 < length data then take 50 data @ ''...'' else data))
      else Inr data)"

subsection \<open>Tables\<close>

text \<open>
  The tables \<open>xml_data\<close> and \<open>localization_data\<close> are created with
  \<open>id INTEGER PRIMARY KEY AUTOINCREMENT\<close> and no other constraint. A table is its rows
  in rowid order, each with its id, and the largest rowid ever used (SQLite's
  \<open>sqlite_sequence\<close>). \<open>INSERT OR REPLACE\<close> without an id takes a fresh rowid, deletes
  the rows that conflict with the new row on a uniqueness constraint (here: the id),
  and appends the new row. A \<open>SELECT\<close> without \<open>ORDER BY\<close> scans in rowid order.
\<close>

record 'r table =
  rows :: "(nat \<times> 'r) list"
  seq :: nat

definition empty_table :: "'r table" where
  "empty_table = \<lparr>rows = [], seq = 0\<rparr>"

definition next_rowid :: "'r table \<Rightarrow> nat" where
  "next_rowid t = Suc (max (seq t) (fold max (map fst (rows t)) 0))"

definition insert_or_replace :: "'r \<Rightarrow> 'r table \<Rightarrow> 'r table" where
  "insert_or_replace r t =
     (let i = next_rowid t
      in \<lparr>rows = filter (\<lambda>p. fst p \<noteq> i) (rows t) @ [(i, r)], seq = i\<rparr>)"

definition select_all :: "'r table \<Rightarrow> 'r list" where
  "select_all t = map snd (rows t)"

record xml_row =
  modlet_name :: string
  unique_id :: string
  full_path :: string
  short_path :: string
  outer_tag :: string
  content :: string

text \<open>
  A row of \<open>localization_data\<close> is the list of its 24 text columns, in the order of
  \<open>localization_columns\<close>.
\<close>

definition localization_columns :: "string list" where
  "localization_columns =
     [''modlet_name'', ''unique_id'', ''full_path'', ''short_path'', ''file'',
      ''used_in_main_menu'', ''no_translate'', ''type'', ''key'', ''english'', ''german'',
      ''latam'', ''french'', ''italian'', ''japanese'', ''koreana'', ''polish'', ''brazilian'',
      ''russian'', ''turkish'', ''schinese'', ''tchinese'', ''spanish'', ''value'']"

record db =
  encoding :: string
  xml_data :: "xml_row table"
  localization_data :: "string list table"

definition initialize :: "string \<Rightarrow> db" where
  "initialize enc = \<lparr>encoding = enc, xml_data = empty_table, localization_data = empty_table\<rparr>"

text \<open>
  \<^verbatim>\<open>store_xml_data\<close>. The read-back after the insert only chooses a log message and
  is left out.
\<close>

definition store_xml_data ::
  "db \<Rightarrow> string \<Rightarrow> string \<Rightarrow> path \<Rightarrow> path \<Rightarrow> string \<Rightarrow> string \<Rightarrow> db" where
  "store_xml_data d modlet_name' unique_id' full_path' short_path' outer_tag' content' =
     (let encoded_content = encode_data (encoding d) content'
      in d\<lparr>xml_data := insert_or_replace
             \<lparr>modlet_name = modlet_name', unique_id = unique_id', full_path = full_path',
              short_path = short_path', outer_tag = outer_tag', content = encoded_content\<rparr>
             (xml_data d)\<rparr>)"

text \<open>
  \<^verbatim>\<open>store_localization_data\<close> has 24 parameters. The first ten are given one by one;
  \<open>others\<close> are the remaining positional arguments (\<open>german\<close> up to \<open>value\<close>), and a
  call with another number of them is a \<open>TypeError\<close>.
\<close>

definition store_localization_data ::
  "db \<Rightarrow> string \<Rightarrow> string \<Rightarrow> path \<Rightarrow> path \<Rightarrow> string \<Rightarrow> string \<Rightarrow> string \<Rightarrow> string
     \<Rightarrow> string \<Rightarrow> string \<Rightarrow> string list \<Rightarrow> py_error + db" where
  "store_localization_data d modlet_name' unique_id' full_path' short_path' file
       used_in_main_menu no_translate type key english others =
     (if length others \<noteq> 14 then Inl TypeError
      else
        let encoded_data = map (encode_data (encoding d))
              ([modlet_name', unique_id', full_path', short_path', file, used_in_main_menu,
                no_translate, type, key, english] @ others)
        in Inr (d\<lparr>localization_data := insert_or_replace encoded_data (localization_data d)\<rparr>))"

section \<open>The XML fragment normalizer (parser\_xml.py)\<close>

text \<open>
  An \<open>xml.etree.ElementTree.Element\<close>: tag, attributes in document order, text (empty
  for \<open>None\<close>), children and tail. Tags and attribute names carry no namespace.
\<close>

datatype element =
  Element (tag: string) (attrib: "(string \<times> string) list") (text_of: string)
    (children: "element list") (tail_of: string)

text \<open>
  \<open>ET.tostring(child, encoding='unicode', method='xml')\<close>, after ElementTree's
  \<^verbatim>\<open>_serialize_xml\<close> with short empty elements, \<^verbatim>\<open>_escape_cdata\<close> and
  \<^verbatim>\<open>_escape_attrib\<close>. The tail of the element is part of its serialization.
\<close>

definition escape_cdata :: "string \<Rightarrow> string" where
  "escape_cdata s = concat (map (\<lambda>c.
     if c = CHR ''&'' then ''&amp;'' else if c = CHR ''<'' then ''&lt;''
     else if c = CHR ''>'' then ''&gt;'' else [c]) s)"

definition escape_attrib :: "string \<Rightarrow> string" where
  "escape_attrib s = concat (map (\<lambda>c.
     if c = CHR ''&'' then ''&amp;'' else if c = CHR ''<'' then ''&lt;''
     else if c = CHR ''>'' then ''&gt;'' else if c = CHR 0x22 then ''&quot;''
     else if c = CHR 0x0D then ''&#13;'' else if c = CHR 0x0A then ''&#10;''
     else if c = CHR 0x09 then ''&#09;'' else [c]) s)"

fun tostring :: "element \<Rightarrow> string" where
  "tostring (Element tg items txt elems tl0) =
     ''<'' @ tg
     @ concat (map (\<lambda>(k, v). '' '' @ k @ ''=\"'' @ escape_attrib v @ ''\"'') items)
     @ (if txt \<noteq> [] \<or> elems \<noteq> []
        then ''>'' @ escape_cdata txt @ concat (map tostring elems) @ ''</'' @ tg @ ''>''
        else '' />'')
     @ escape_cdata tl0"

definition XMLParser_get_short_path :: "string \<Rightarrow> string" where
  "XMLParser_get_short_path full_path' = last (split CHR ''/'' full_path')"

text \<open>
  \<^verbatim>\<open>XMLParser.parse\<close> with the content given, as \<^verbatim>\<open>FileLocator._process_xml_file\<close>
  calls it. \<open>ET.fromstring\<close> is the parameter \<open>fromstring\<close>: \<open>None\<close> is a
  \<open>ParseError\<close>, which \<open>parse\<close> catches and logs.
\<close>

definition ensure_declaration :: "string \<Rightarrow> string" where
  "ensure_declaration content' =
     (if prefix ''<?xml'' content' then content'
      else ''<?xml version=\"1.0\" encoding=\"UTF-8\"?>\<newline>'' @ content')"

definition XMLParser_parse ::
  "(string \<Rightarrow> element option) \<Rightarrow> path \<Rightarrow> string \<Rightarrow> string \<Rightarrow> string \<Rightarrow> db \<Rightarrow> db" where
  "XMLParser_parse fromstring file_path modlet_name' unique_id' content' d =
     (let content1 = lstrip content';
          content2 = ensure_declaration content1
      in case fromstring content2 of
           None \<Rightarrow> d
         | Some root' \<Rightarrow>
             let outer_tag' = tag root';
                 short_path' = XMLParser_get_short_path file_path;
                 xml_content = join ''\<newline>'' (map (\<lambda>child. strip (tostring child)) (children root'))
             in store_xml_data d modlet_name' unique_id' file_path short_path' outer_tag' xml_content)"

section \<open>The localization row normalizer (parser\_localization.py)\<close>

definition LocalizationParser_get_short_path :: "string \<Rightarrow> string" where
  "LocalizationParser_get_short_path full_path' =
     (let parts = split CHR ''/'' full_path' in join ''/'' (drop (length parts - 2) parts))"

text \<open>
  The body of the loop of \<^verbatim>\<open>LocalizationParser.parse\<close> for one row of the CSV reader.
  The unpacking of \<open>row[:20]\<close> needs six values at least and raises \<open>ValueError\<close>
  otherwise.
\<close>

definition parse_row ::
  "string \<Rightarrow> string \<Rightarrow> string \<Rightarrow> string \<Rightarrow> db \<Rightarrow> string list \<Rightarrow> py_error + db" where
  "parse_row file_path modlet_name' unique_id' short_path' d row =
     (if row = [] then Inr d
      else if prefix ''#'' (hd row) then Inr d
      else if length row < 20 then Inr d
      else case take 20 row of
             key # file # type # used_in_main_menu # no_translate # english # other_languages \<Rightarrow>
               store_localization_data d modlet_name' unique_id' file_path short_path'
                 file used_in_main_menu no_translate type key english other_languages
           | _ \<Rightarrow> Inl ValueError)"

text \<open>
  The loop: an exception leaves it with the rows stored so far (each store commits).
\<close>

fun parse_rows ::
  "string \<Rightarrow> string \<Rightarrow> string \<Rightarrow> string \<Rightarrow> db \<Rightarrow> string list list \<Rightarrow> db \<times> py_error option" where
  "parse_rows file_path modlet_name' unique_id' short_path' d [] = (d, None)"
| "parse_rows file_path modlet_name' unique_id' short_path' d (row # later) =
     (case parse_row file_path modlet_name' unique_id' short_path' d row of
        Inl e \<Rightarrow> (d, Some e)
      | Inr d' \<Rightarrow> parse_rows file_path modlet_name' unique_id' short_path' d' later)"

text \<open>
  \<^verbatim>\<open>LocalizationParser.parse\<close> with the content given. \<open>csv_reader content\<close> is the list
  of rows that \<open>csv.reader(StringIO(content), delimiter=',', quotechar='"')\<close> yields.
  The first row is skipped. The closing log line reads the loop variable
  \<open>line_number\<close>, which is unbound when the loop body never ran.
\<close>

definition LocalizationParser_parse ::
  "(string \<Rightarrow> string list list) \<Rightarrow> string \<Rightarrow> string \<Rightarrow> string \<Rightarrow> string \<Rightarrow> db
     \<Rightarrow> db \<times> py_error option" where
  "LocalizationParser_parse csv_reader file_path modlet_name' unique_id' content' d =
     (let data_rows = drop 1 (csv_reader content');
          short_path' = LocalizationParser_get_short_path file_path
      in case parse_rows file_path modlet_name' unique_id' short_path' d data_rows of
           (d', Some e) \<Rightarrow> (d', Some e)
         | (d', None) \<Rightarrow> (d', if data_rows = [] then Some UnboundLocalError else None))"

section \<open>Reading the store back (db\_processor.py)\<close>

text \<open>
  A \<open>dict\<close> keeps its keys in the order of their first insertion; assigning to a key
  that is present keeps its place.
\<close>

type_synonym 'v dict = "(string \<times> 'v) list"

fun dict_set :: "string \<Rightarrow> 'v \<Rightarrow> 'v dict \<Rightarrow> 'v dict" where
  "dict_set k v [] = [(k, v)]"
| "dict_set k v (kv # kvs) = (if fst kv = k then (k, v) # kvs else kv # dict_set k v kvs)"

definition dict_get :: "'v dict \<Rightarrow> string \<Rightarrow> 'v \<Rightarrow> 'v" where
  "dict_get d k dflt = (case map_of d k of None \<Rightarrow> dflt | Some v \<Rightarrow> v)"

text \<open>
  The body of the loop of \<^verbatim>\<open>get_xml_data\<close> over the fetched rows, for one row whose
  content is already decoded.
\<close>

definition add_block ::
  "string \<Rightarrow> string \<Rightarrow> string \<Rightarrow> string list dict dict \<Rightarrow> string list dict dict" where
  "add_block short_path' outer_tag' decoded xml =
     (let xml1 = (if map_of xml short_path' = None then dict_set short_path' [] xml else xml);
          inner = dict_get xml1 short_path' [];
          inner1 = (if map_of inner outer_tag' = None then dict_set outer_tag' [] inner else inner);
          blocks = dict_get inner1 outer_tag' []
      in dict_set short_path' (dict_set outer_tag' (blocks @ [decoded]) inner1) xml1)"

fun group_rows ::
  "(string \<Rightarrow> string option) \<Rightarrow> string \<Rightarrow> xml_row list \<Rightarrow> string list dict dict
     \<Rightarrow> py_error + string list dict dict" where
  "group_rows b64decode_utf8 enc [] xml = Inr xml"
| "group_rows b64decode_utf8 enc (r # rs) xml =
     (case decode_data b64decode_utf8 enc (content r) of
        Inl e \<Rightarrow> Inl e
      | Inr decoded \<Rightarrow>
          group_rows b64decode_utf8 enc rs (add_block (short_path r) (outer_tag r) decoded xml))"

text \<open>
  \<^verbatim>\<open>get_xml_data\<close>: all rows when one of the three arguments is empty, as the writer
  calls it. An exception of \<^verbatim>\<open>_decode_data\<close> is not an \<open>sqlite3.Error\<close> and leaves the
  function.
\<close>

definition get_xml_data ::
  "(string \<Rightarrow> string option) \<Rightarrow> db \<Rightarrow> string \<Rightarrow> string \<Rightarrow> string
     \<Rightarrow> py_error + string list dict dict" where
  "get_xml_data b64decode_utf8 d full_path' short_path' outer_tag' =
     (let fetched =
            (if full_path' \<noteq> [] \<and> short_path' \<noteq> [] \<and> outer_tag' \<noteq> []
             then filter (\<lambda>r. full_path r = full_path' \<and> short_path r = short_path'
                                \<and> outer_tag r = outer_tag') (select_all (xml_data d))
             else select_all (xml_data d))
      in group_rows b64decode_utf8 (encoding d) fetched [])"

text \<open>
  \<^verbatim>\<open>get_xml_metadata\<close>: the first row with this short path, tag and stored content;
  returned here are the values under the keys \<open>modlet_name\<close> and \<open>full_path\<close>.
\<close>

definition get_xml_metadata ::
  "(string \<Rightarrow> string option) \<Rightarrow> db \<Rightarrow> string \<Rightarrow> string \<Rightarrow> string
     \<Rightarrow> py_error + string \<times> string" where
  "get_xml_metadata b64decode_utf8 d short_path' outer_tag' content' =
     (case find (\<lambda>r. short_path r = short_path' \<and> outer_tag r = outer_tag'
                        \<and> content r = content') (select_all (xml_data d)) of
        None \<Rightarrow> Inr (''Unknown'', ''Unknown'')
      | Some r \<Rightarrow>
          (case decode_data b64decode_utf8 (encoding d) (modlet_name r) of
             Inl e \<Rightarrow> Inl e
           | Inr n \<Rightarrow>
               (case decode_data b64decode_utf8 (encoding d) (full_path r) of
                  Inl e \<Rightarrow> Inl e
                | Inr f \<Rightarrow> Inr (n, f))))"

text \<open>
  \<^verbatim>\<open>get_localization_data\<close>: each fetched row decoded column by column and zipped
  with the column names into a \<open>dict\<close>. The \<open>WHERE\<close> clause compares the third and
  fourth column.
\<close>

fun decode_row ::
  "(string \<Rightarrow> string option) \<Rightarrow> string \<Rightarrow> string list \<Rightarrow> py_error + string list" where
  "decode_row b64decode_utf8 enc [] = Inr []"
| "decode_row b64decode_utf8 enc (item # items) =
     (case decode_data b64decode_utf8 enc item of
        Inl e \<Rightarrow> Inl e
      | Inr v \<Rightarrow>
          (case decode_row b64decode_utf8 enc items of
             Inl e \<Rightarrow> Inl e
           | Inr vs \<Rightarrow> Inr (v # vs)))"

fun decode_results ::
  "(string \<Rightarrow> string option) \<Rightarrow> string \<Rightarrow> string list list \<Rightarrow> py_error + string dict list" where
  "decode_results b64decode_utf8 enc [] = Inr []"
| "decode_results b64decode_utf8 enc (row # results) =
     (case decode_row b64decode_utf8 enc row of
        Inl e \<Rightarrow> Inl e
      | Inr decoded_row \<Rightarrow>
          (case decode_results b64decode_utf8 enc results of
             Inl e \<Rightarrow> Inl e
           | Inr decoded_results \<Rightarrow> Inr (zip localization_columns decoded_row # decoded_results)))"

definition get_localization_data ::
  "(string \<Rightarrow> string option) \<Rightarrow> db \<Rightarrow> string \<Rightarrow> string \<Rightarrow> py_error + string dict list" where
  "get_localization_data b64decode_utf8 d full_path' short_path' =
     (let results =
            (if full_path' \<noteq> [] \<and> short_path' \<noteq> []
             then filter (\<lambda>row. take 2 (drop 2 row) = [full_path', short_path'])
                    (select_all (localization_data d))
             else select_all (localization_data d))
      in decode_results b64decode_utf8 (encoding d) results)"

section \<open>The merge assembler (configuration.py, modlet\_writer.py)\<close>

definition EXPECTED_HEADER :: "string list" where
  "EXPECTED_HEADER =
     [''Key'', ''File'', ''Type'', ''UsedInMainMenu'', ''NoTranslate'', ''english'',
      ''Context / Alternate Text'', ''german'', ''latam'', ''french'', ''italian'', ''japanese'',
      ''koreana'', ''polish'', ''brazilian'', ''russian'', ''turkish'', ''schinese'', ''tchinese'',
      ''spanish'']"

definition TARGET_LANGUAGES :: "string list" where
  "TARGET_LANGUAGES = drop 7 EXPECTED_HEADER"

definition QUOTED_COLUMNS :: "string list" where
  "QUOTED_COLUMNS = [''english'', ''Context / Alternate Text''] @ TARGET_LANGUAGES"

text \<open>
  \<^verbatim>\<open>_write_localization_file\<close>: the text written to \<open>Config/Localization.txt\<close>, or
  \<open>None\<close> when there is no localization data and no file is written.
\<close>

definition line_part :: "string dict \<Rightarrow> string \<Rightarrow> string" where
  "line_part entry column =
     (let v = dict_get entry (lower column) []
      in if v \<noteq> [] \<and> column \<in> set QUOTED_COLUMNS then ''\"'' @ v @ ''\"'' else v)"

definition localization_line :: "string dict \<Rightarrow> string" where
  "localization_line entry = join '','' (map (line_part entry) EXPECTED_HEADER) @ ''\<newline>''"

definition write_localization_file ::
  "(string \<Rightarrow> string option) \<Rightarrow> db \<Rightarrow> py_error + string option" where
  "write_localization_file b64decode_utf8 d =
     (case get_localization_data b64decode_utf8 d [] [] of
        Inl e \<Rightarrow> Inl e
      | Inr localization_data' \<Rightarrow>
          if localization_data' = [] then Inr None
          else Inr (Some (join '','' EXPECTED_HEADER @ ''\<newline>''
                          @ concat (map localization_line localization_data'))))"

text \<open>
  \<^verbatim>\<open>_write_xml_files\<close>. For one short path the two nested loops visit the blocks tag by
  tag; \<open>tag_blocks\<close> and \<open>file_blocks\<close> give the visited blocks, each with the modlet
  name that \<^verbatim>\<open>get_xml_metadata\<close> finds for it. \<open>combined_content\<close> is the list the loops
  build from them and \<open>full_content\<close> the text handed to the XML writer;
  \<open>xml_block_count\<close> is the number of visited blocks.
\<close>

fun tag_blocks ::
  "(string \<Rightarrow> string option) \<Rightarrow> db \<Rightarrow> string \<Rightarrow> string \<Rightarrow> string list
     \<Rightarrow> py_error + (string \<times> string) list" where
  "tag_blocks b64decode_utf8 d short_path' outer_tag' [] = Inr []"
| "tag_blocks b64decode_utf8 d short_path' outer_tag' (tag_content # tag_contents) =
     (case get_xml_metadata b64decode_utf8 d short_path' outer_tag' tag_content of
        Inl e \<Rightarrow> Inl e
      | Inr (modlet_name', _) \<Rightarrow>
          (case tag_blocks b64decode_utf8 d short_path' outer_tag' tag_contents of
             Inl e \<Rightarrow> Inl e
           | Inr bs \<Rightarrow> Inr ((modlet_name', tag_content) # bs)))"

fun file_blocks ::
  "(string \<Rightarrow> string option) \<Rightarrow> db \<Rightarrow> string \<Rightarrow> string list dict
     \<Rightarrow> py_error + (string \<times> string) list" where
  "file_blocks b64decode_utf8 d short_path' [] = Inr []"
| "file_blocks b64decode_utf8 d short_path' (item # items) =
     (case tag_blocks b64decode_utf8 d short_path' (fst item) (snd item) of
        Inl e \<Rightarrow> Inl e
      | Inr bs \<Rightarrow>
          (case file_blocks b64decode_utf8 d short_path' items of
             Inl e \<Rightarrow> Inl e
           | Inr cs \<Rightarrow> Inr (bs @ cs)))"

definition combined_content :: "(string \<times> string) list \<Rightarrow> string list" where
  "combined_content blocks =
     concat (map (\<lambda>(modlet_name', tag_content).
       [''<!-- Start XML_Block: '' @ modlet_name' @ '' -->'', tag_content,
        ''<!-- End XML_Block: '' @ modlet_name' @ '' -->'']) blocks)"

definition full_content :: "(string \<times> string) list \<Rightarrow> string" where
  "full_content blocks =
     ''<config>\<newline>'' @ join '' '' (combined_content blocks) @ ''\<newline></config>''"

record xml_file =
  file_short_path :: string
  blocks_written :: "(string \<times> string) list"
  text_written :: string
  xml_block_count :: nat

fun write_files ::
  "(string \<Rightarrow> string option) \<Rightarrow> db \<Rightarrow> string list dict dict \<Rightarrow> py_error + xml_file list" where
  "write_files b64decode_utf8 d [] = Inr []"
| "write_files b64decode_utf8 d (item # items) =
     (case file_blocks b64decode_utf8 d (fst item) (snd item) of
        Inl e \<Rightarrow> Inl e
      | Inr blocks \<Rightarrow>
          (case write_files b64decode_utf8 d items of
             Inl e \<Rightarrow> Inl e
           | Inr files \<Rightarrow>
               Inr (\<lparr>file_short_path = fst item, blocks_written = blocks,
                      text_written = full_content blocks,
                      xml_block_count = length blocks\<rparr> # files)))"

definition write_xml_files ::
  "(string \<Rightarrow> string option) \<Rightarrow> db \<Rightarrow> py_error + xml_file list" where
  "write_xml_files b64decode_utf8 d =
     (case get_xml_data b64decode_utf8 d [] [] [] of
        Inl e \<Rightarrow> Inl e
      | Inr xml \<Rightarrow> write_files b64decode_utf8 d xml)"

section \<open>Difference percentages (parser\_localization.py, parser\_xml.py)\<close>

text \<open>
  \<^verbatim>\<open>LocalizationParser.calculate_difference\<close>: the loop over
  \<open>range(min(len(original), len(stored)))\<close> counts the positions that differ; the true
  division raises ZeroDivisionError on a zero divisor.
\<close>

definition truediv :: "(rat \<Rightarrow> rat) \<Rightarrow> int \<Rightarrow> int \<Rightarrow> py_error + rat" where
  "truediv rnd a b = (if b = 0 then Inl ZeroDivisionError else Inr (rnd (of_int a / of_int b)))"

definition calculate_difference :: "(rat \<Rightarrow> rat) \<Rightarrow> string \<Rightarrow> string \<Rightarrow> py_error + rat" where
  "calculate_difference rnd original stored =
     (if original = stored then Inr 0
      else
        let changes = int (length (filter (\<lambda>i. original ! i \<noteq> stored ! i)
                                     [0 ..< min (length original) (length stored)]));
            changes = changes + \<bar>int (length original) - int (length stored)\<bar>
        in case truediv rnd changes (max (int (length original)) (int (length stored))) of
             Inl e \<Rightarrow> Inl e
           | Inr q \<Rightarrow> Inr (rnd (q * 100)))"

text \<open>
  \<^verbatim>\<open>XMLParser._calculate_difference_percentage\<close>: the same count over
  \<open>zip(original, stored)\<close>; any exception is caught and answered with 100.
\<close>

definition calculate_difference_percentage :: "(rat \<Rightarrow> rat) \<Rightarrow> string \<Rightarrow> string \<Rightarrow> rat" where
  "calculate_difference_percentage rnd original stored =
     (if original = stored then 0
      else
        let changes = int (length (filter (\<lambda>(a, b). a \<noteq> b) (zip original stored)));
            changes = changes + \<bar>int (length original) - int (length stored)\<bar>
        in case truediv rnd changes (max (int (length original)) (int (length stored))) of
             Inl e \<Rightarrow> 100
           | Inr q \<Rightarrow> rnd (q * 100))"

section \<open>Modlet identifiers (db\_processor.py, modlet\_finder.py)\<close>

text \<open>
  The \<open>modlet_info\<close> dictionary that \<^verbatim>\<open>_parse_modinfo\<close> builds. \<open>hashlib.md5(b).hexdigest()\<close>
  is the parameter \<open>md5_hexdigest\<close>.
\<close>

record modlet_info =
  name :: string
  description :: string
  author :: string
  version :: string
  website :: string


section \<open>File discovery (file\_locator.py, modlet\_finder.py)\<close>

text \<open>
  \<open>ex in root\<close> on strings, \<open>os.path.join\<close> on POSIX paths, and the state of a
  \<open>FileLocator\<close>. \<open>os.walk(directory)\<close> is the parameter \<open>walk\<close>: the visited
  directories, each with the names of its files.
\<close>

fun contains :: "string \<Rightarrow> string \<Rightarrow> bool" where
  "contains ex [] = (ex = [])"
| "contains ex (c # cs) = (prefix ex (c # cs) \<or> contains ex cs)"

definition os_path_join :: "string \<Rightarrow> string \<Rightarrow> string" where
  "os_path_join a b =
     (if prefix ''/'' b then b
      else if a = [] \<or> suffix ''/'' a then a @ b
      else a @ ''/'' @ b)"

record file_locator =
  source_paths :: "string list"
  xml_files :: "string list"
  localization_files :: "string list"

definition locate_files ::
  "(string \<Rightarrow> (string \<times> string list) list) \<Rightarrow> file_locator \<Rightarrow> string \<Rightarrow> string
     \<Rightarrow> string list \<Rightarrow> string list \<times> file_locator" where
  "locate_files walk fl file_type path exclude =
     (let search_paths = (if path \<noteq> [] then [path] else source_paths fl);
          visited = filter (\<lambda>(root', files). \<not> (exclude \<noteq> [] \<and> list_ex (\<lambda>ex. contains ex root') exclude))
                      (concat (map walk search_paths));
          found_xml =
            (if file_type = ''.xml''
             then concat (map (\<lambda>(root', files).
                     map (os_path_join root') (filter (suffix ''.xml'') files)) visited)
             else []);
          found_localization =
            (if file_type \<noteq> ''.xml'' \<and> file_type = ''Localization.txt''
             then concat (map (\<lambda>(root', files).
                     map (os_path_join root')
                       (filter (\<lambda>file. lower file = ''localization.txt'') files)) visited)
             else [])
      in (found_xml @ found_localization,
          fl\<lparr>xml_files := xml_files fl @ found_xml,
             localization_files := localization_files fl @ found_localization\<rparr>))"

text \<open>
  \<^verbatim>\<open>process_files\<close> for the XML files: every located file whose path starts with
  \<open>path\<close> is read and parsed. \<open>read_file\<close> gives the text of a file, \<open>None\<close> when
  reading raises; \<^verbatim>\<open>_process_xml_file\<close> catches that and goes on.
\<close>

definition process_xml_file ::
  "(string \<Rightarrow> string option) \<Rightarrow> (string \<Rightarrow> element option) \<Rightarrow> string \<Rightarrow> string \<Rightarrow> string
     \<Rightarrow> db \<Rightarrow> db" where
  "process_xml_file read_file fromstring modlet_name' unique_id' file_path d =
     (case read_file file_path of
        None \<Rightarrow> d
      | Some content' \<Rightarrow> XMLParser_parse fromstring file_path modlet_name' unique_id' content' d)"

definition process_files ::
  "(string \<Rightarrow> string option) \<Rightarrow> (string \<Rightarrow> element option) \<Rightarrow> file_locator \<Rightarrow> string
     \<Rightarrow> string \<Rightarrow> string \<Rightarrow> db \<Rightarrow> db" where
  "process_files read_file fromstring fl modlet_name' unique_id' path d =
     fold (process_xml_file read_file fromstring modlet_name' unique_id')
       (filter (prefix path) (xml_files fl)) d"

text \<open>
  The XML half of \<^verbatim>\<open>ModletFinder._process_modlet_files\<close>: the files are located with
  \<open>exclude=["ModInfo.xml"]\<close>, then \<^verbatim>\<open>process_files\<close> runs once for each located file.
\<close>

definition process_modlet_files ::
  "(string \<Rightarrow> (string \<times> string list) list) \<Rightarrow> (string \<Rightarrow> string option)
     \<Rightarrow> (string \<Rightarrow> element option) \<Rightarrow> file_locator \<Rightarrow> string \<Rightarrow> string \<Rightarrow> string \<Rightarrow> db
     \<Rightarrow> string list \<times> file_locator \<times> db" where
  "process_modlet_files walk read_file fromstring fl root' modlet_name' unique_id' d =
     (let (located, fl') = locate_files walk fl ''.xml'' root' [''ModInfo.xml'']
      in (located, fl',
          fold (process_files read_file fromstring fl' modlet_name' unique_id') located d))"

section \<open>The integrity reporter (xml\_writer.py)\<close>

text \<open>
  The counters of an \<open>XMLWriter\<close>. \<^verbatim>\<open>_update_file_size\<close> is called once for each
  written file with the length of the written text; \<open>file_size\<close> is what
  \<open>os.path.getsize\<close> answers for the file.
\<close>

record xml_writer =
  total_size :: int
  original_total_size :: int
  written_files :: "int dict"

definition XMLWriter_init :: xml_writer where
  "XMLWriter_init = \<lparr>total_size = 0, original_total_size = 0, written_files = []\<rparr>"

definition update_file_size :: "xml_writer \<Rightarrow> string \<Rightarrow> int \<Rightarrow> int \<Rightarrow> xml_writer" where
  "update_file_size w file_path content_size file_size =
     w\<lparr>total_size := total_size w + file_size,
       original_total_size := original_total_size w + content_size,
       written_files := dict_set file_path file_size (written_files w)\<rparr>"

text \<open>
  \<^verbatim>\<open>check_total_filesize\<close>: the answer and the one line it logs.
\<close>

datatype log_line = Debug_within rat | Warning_differs rat

definition check_total_filesize :: "(rat \<Rightarrow> rat) \<Rightarrow> xml_writer \<Rightarrow> py_error + bool \<times> log_line" where
  "check_total_filesize rnd w =
     (let total_written_size = sum_list (map snd (written_files w));
          difference = \<bar>total_written_size - original_total_size w\<bar>
      in case truediv rnd difference (original_total_size w) of
           Inl e \<Rightarrow> Inl e
         | Inr q \<Rightarrow>
             let percentage_difference = rnd (q * 100)
             in if percentage_difference \<le> 5 then Inr (True, Debug_within percentage_difference)
                else Inr (False, Warning_differs percentage_difference))"

section \<open>Recorded order, for the statements about the assembler\<close>

text \<open>
  The values of a list in the order of their first occurrence; the text a stored
  content decodes to; and the decoded blocks recorded in the store for a short path and
  a structural tag, in the order of recording.
\<close>

primrec first_seen :: "'a list \<Rightarrow> 'a list" where
  "first_seen [] = []"
| "first_seen (x # xs) = x # filter (\<lambda>y. y \<noteq> x) (first_seen xs)"

definition decoded :: "(string \<Rightarrow> string option) \<Rightarrow> string \<Rightarrow> string \<Rightarrow> string" where
  "decoded b64decode_utf8 enc stored =
     (case decode_data b64decode_utf8 enc stored of Inl e \<Rightarrow> [] | Inr s \<Rightarrow> s)"

definition recorded_tags :: "db \<Rightarrow> string \<Rightarrow> string list" where
  "recorded_tags d p =
     first_seen (map outer_tag (filter (\<lambda>r. short_path r = p) (select_all (xml_data d))))"

definition recorded_blocks :: "(string \<Rightarrow> string option) \<Rightarrow> db \<Rightarrow> string \<Rightarrow> string \<Rightarrow> string list" where
  "recorded_blocks b64decode_utf8 d p t =
     map (\<lambda>r. decoded b64decode_utf8 (encoding d) (content r))
       (filter (\<lambda>r. short_path r = p \<and> outer_tag r = t) (select_all (xml_data d)))"

section \<open>Sample inputs\<close>

text \<open>One localization row of a modlet, with a fixed key and a chosen english text.\<close>

definition sample_store :: "db \<Rightarrow> string \<Rightarrow> string \<Rightarrow> py_error + db" where
  "sample_store d modlet english =
     store_localization_data d modlet ''id'' (''/mods/'' @ modlet @ ''/Config/Localization.txt'')
       ''Config/Localization.txt'' ''UI'' [] [] ''Menu'' ''greeting'' english (replicate 14 [])"

text \<open>
  Two files of a modlet Alpha, with the trees that \<open>ET.fromstring\<close> builds from them,
  and the directory walk and file contents of that modlet.
\<close>

definition sample_items_xml :: string where
  "sample_items_xml = ''<items><item name=\"bow\" /><item name=\"axe\" /></items>''"

definition sample_items_root :: element where
  "sample_items_root =
     Element ''items'' [] []
       [Element ''item'' [(''name'', ''bow'')] [] [] [],
        Element ''item'' [(''name'', ''axe'')] [] [] []] []"

definition sample_modinfo_xml :: string where
  "sample_modinfo_xml = ''<xml><Name value=\"Alpha\" /><Version value=\"1.0\" /></xml>''"

definition sample_modinfo_root :: element where
  "sample_modinfo_root =
     Element ''xml'' [] []
       [Element ''Name'' [(''value'', ''Alpha'')] [] [] [],
        Element ''Version'' [(''value'', ''1.0'')] [] [] []] []"

definition sample_fromstring :: "string \<Rightarrow> element option" where
  "sample_fromstring s =
     (if s = ensure_declaration sample_items_xml then Some sample_items_root
      else if s = ensure_declaration sample_modinfo_xml then Some sample_modinfo_root
      else None)"

definition sample_walk :: "path \<Rightarrow> (path \<times> string list) list" where
  "sample_walk directory =
     (if directory = ''/mods/Alpha''
      then [(''/mods/Alpha'', [''ModInfo.xml'']), (''/mods/Alpha/Config'', [''items.xml''])]
      else [])"

definition sample_read_file :: "path \<Rightarrow> string option" where
  "sample_read_file file_path =
     (if file_path = ''/mods/Alpha/ModInfo.xml'' then Some sample_modinfo_xml
      else if file_path = ''/mods/Alpha/Config/items.xml'' then Some sample_items_xml
      else None)"

text \<open>
  A fresh file locator, and the writer's counters after a file of ten two-byte
  characters and a file of a thousand one-byte characters were written.
\<close>

definition sample_locator :: file_locator where
  "sample_locator = \<lparr>source_paths = [''/mods''], xml_files = [], localization_files = []\<rparr>"

definition sample_writer :: xml_writer where
  "sample_writer =
     update_file_size (update_file_size XMLWriter_init ''Config/a.xml'' 10 20)
       ''Config/b.xml'' 1000 1000"

text \<open>Two data rows of a localization table, of 19 and of 21 fields.\<close>

definition sample_row19 :: "string list" where
  "sample_row19 = ''short'' # replicate 18 ''x''"

definition sample_row21 :: "string list" where
  "sample_row21 = ''long'' # replicate 20 ''y''"

text \<open>
  A base64 decoder for the samples: it answers with the text of \<open>sample_texts\<close> whose
  encoding is the given string, as the library does for these strings, and fails on
  every other string.
\<close>

definition sample_texts :: "string list" where
  "sample_texts =
     [''Alpha'', ''Beta'', ''id'', ''/mods/Alpha/Config/Localization.txt'',
      ''Config/Localization.txt'', ''UI'', ''Menu'', ''greeting'', ''Hello'',
      ''<a />'', ''<b />'', ''<c />'',
      ''f0'', ''f1'', ''f2'', ''f3'', ''f4'', ''f5'', ''f6'', ''f7'', ''f8'', ''f9'',
      ''f10'', ''f11'', ''f12'', ''f13'', ''f14'', ''f15'', ''f16'', ''f17'', ''f18'', ''f19'']"

definition sample_b64decode_utf8 :: "string \<Rightarrow> string option" where
  "sample_b64decode_utf8 s = find (\<lambda>t. encode_data ''base64'' t = s) sample_texts"

text \<open>
  The store after three files were recorded: two files of the modlet Alpha with the
  short path \<open>items.xml\<close> and different root tags, then one file of the modlet Beta.
\<close>

definition sample_xml_db :: db where
  "sample_xml_db =
     store_xml_data
       (store_xml_data
          (store_xml_data (initialize ''base64'')
             ''Alpha'' ''id'' ''/mods/Alpha/Config/items.xml'' ''items.xml'' ''items'' ''<a />'')
          ''Alpha'' ''id'' ''/mods/Alpha/Config/XUi/items.xml'' ''items.xml'' ''append'' ''<b />'')
       ''Beta'' ''id2'' ''/mods/Beta/Config/items.xml'' ''items.xml'' ''items'' ''<c />''"

text \<open>The file that the assembler writes for the short path \<open>items.xml\<close> of that store.\<close>

definition sample_items_file :: xml_file where
  "sample_items_file =
     \<lparr>file_short_path = ''items.xml'',
      blocks_written = [(''Unknown'', ''<a />''), (''Unknown'', ''<c />''), (''Unknown'', ''<b />'')],
      text_written = ''<config>\<newline><!-- Start XML_Block: Unknown --> <a /> <!-- End XML_Block: Unknown --> <!-- Start XML_Block: Unknown --> <c /> <!-- End XML_Block: Unknown --> <!-- Start XML_Block: Unknown --> <b /> <!-- End XML_Block: Unknown -->\<newline></config>'',
      xml_block_count = 3\<rparr>"


text \<open>
  The text of a quoted column: in double quotes when it is not empty.
\<close>

definition quote_nonempty :: "string \<Rightarrow> string" where
  "quote_nonempty v = (if v = [] then [] else ''\"'' @ v @ ''\"'')"

text \<open>
  A localization table with the header and one data row whose 20 fields are all
  different, and a CSV reader that knows this one text.
\<close>

definition sample_row20 :: "string list" where
  "sample_row20 =
     [''f0'', ''f1'', ''f2'', ''f3'', ''f4'', ''f5'', ''f6'', ''f7'', ''f8'', ''f9'',
      ''f10'', ''f11'', ''f12'', ''f13'', ''f14'', ''f15'', ''f16'', ''f17'', ''f18'', ''f19'']"

definition sample_localization_txt :: string where
  "sample_localization_txt =
     join '','' EXPECTED_HEADER @ ''\<newline>'' @ join '','' sample_row20 @ ''\<newline>''"

definition sample_csv_reader :: "string \<Rightarrow> string list list" where
  "sample_csv_reader content' =
     (if content' = sample_localization_txt then [EXPECTED_HEADER, sample_row20] else [])"

section \<open>Properties of the difference percentages\<close>

lemma rounded_ratio_bounds:
  fixes rnd :: "rat \<Rightarrow> rat"
  assumes m: "mono rnd" and r0: "rnd 0 = 0" and r1: "rnd 1 = 1" and r100: "rnd 100 = 100"
    and c0: "0 \<le> c" and cn: "c \<le> n" and n0: "0 < n"
  shows "0 \<le> rnd (rnd (of_int c / of_int n) * 100) \<and> rnd (rnd (of_int c / of_int n) * 100) \<le> 100"
proof -
  let ?q = "(of_int c / of_int n) :: rat"
  have q0: "0 \<le> ?q" using c0 n0 by simp
  have q1: "?q \<le> 1" using cn n0 by simp
  have a: "0 \<le> rnd ?q" using monoD [OF m q0] r0 by simp
  have b: "rnd ?q \<le> 1" using monoD [OF m q1] r1 by simp
  have "0 \<le> rnd ?q * 100" using a by simp
  then have lo: "0 \<le> rnd (rnd ?q * 100)" using monoD [OF m, of 0 "rnd ?q * 100"] r0 by simp
  have "rnd ?q * 100 \<le> 100" using b by simp
  then have hi: "rnd (rnd ?q * 100) \<le> 100" using monoD [OF m, of "rnd ?q * 100" 100] r100 by simp
  show ?thesis using lo hi by simp
qed

lemma mismatches_zip_le: "length (filter (\<lambda>(a, b). a \<noteq> b) (zip xs ys)) \<le> min (length xs) (length ys)"
proof -
  have "length (filter (\<lambda>(a, b). a \<noteq> b) (zip xs ys)) \<le> length (zip xs ys)"
    by (rule length_filter_le)
  then show ?thesis by simp
qed

lemma mismatches_range_le:
  "length (filter (\<lambda>i. xs ! i \<noteq> ys ! i) [0 ..< min (length xs) (length ys)]) \<le> min (length xs) (length ys)"
proof -
  have "length (filter (\<lambda>i. xs ! i \<noteq> ys ! i) [0 ..< min (length xs) (length ys)])
          \<le> length [0 ..< min (length xs) (length ys)]"
    by (rule length_filter_le)
  then show ?thesis by simp
qed

lemma changes_le_max:
  assumes "k \<le> min (length xs) (length ys)"
  shows "int k + \<bar>int (length xs) - int (length ys)\<bar> \<le> max (int (length xs)) (int (length ys))"
  using assms by (cases "length xs \<le> length ys") auto

lemma max_length_pos:
  assumes "xs \<noteq> ys"
  shows "0 < max (int (length xs)) (int (length ys))"
proof (rule ccontr)
  assume "\<not> 0 < max (int (length xs)) (int (length ys))"
  then have "xs = [] \<and> ys = []" by (auto simp: max_def split: if_splits)
  with assms show False by simp
qed

text \<open>
  C10. For every pair of strings both difference-percentage helpers return a value
  between 0 and 100 inclusive, and exactly 0 when the two inputs are equal. The float
  rounding is any monotone rounding that represents 0, 1 and 100 exactly, as IEEE 754
  rounding to nearest does.
\<close>

theorem difference_percentage_bounds:
  assumes "mono rnd" and "rnd 0 = 0" and "rnd 1 = 1" and "rnd 100 = 100"
  shows "(\<exists>v. calculate_difference rnd original stored = Inr v \<and> 0 \<le> v \<and> v \<le> 100)
       \<and> calculate_difference rnd original original = Inr 0
       \<and> 0 \<le> calculate_difference_percentage rnd original stored
       \<and> calculate_difference_percentage rnd original stored \<le> 100
       \<and> calculate_difference_percentage rnd original original = 0"
proof (cases "original = stored")
  case True
  then show ?thesis
    by (simp add: calculate_difference_def calculate_difference_percentage_def)
next
  case False
  let ?n = "max (int (length original)) (int (length stored))"
  let ?c1 = "int (length (filter (\<lambda>i. original ! i \<noteq> stored ! i)
                [0 ..< min (length original) (length stored)]))
             + \<bar>int (length original) - int (length stored)\<bar>"
  let ?c2 = "int (length (filter (\<lambda>(a, b). a \<noteq> b) (zip original stored)))
             + \<bar>int (length original) - int (length stored)\<bar>"
  have n: "0 < ?n" using False by (rule max_length_pos)
  have c1: "0 \<le> ?c1" "?c1 \<le> ?n"
    using changes_le_max [OF mismatches_range_le, of original stored] by simp_all
  have c2: "0 \<le> ?c2" "?c2 \<le> ?n"
    using changes_le_max [OF mismatches_zip_le, of original stored] by simp_all
  have b1: "0 \<le> rnd (rnd (of_int ?c1 / of_int ?n) * 100) \<and> rnd (rnd (of_int ?c1 / of_int ?n) * 100) \<le> 100"
    using assms c1 n by (intro rounded_ratio_bounds)
  have b2: "0 \<le> rnd (rnd (of_int ?c2 / of_int ?n) * 100) \<and> rnd (rnd (of_int ?c2 / of_int ?n) * 100) \<le> 100"
    using assms c2 n by (intro rounded_ratio_bounds)
  have d1: "calculate_difference rnd original stored = Inr (rnd (rnd (of_int ?c1 / of_int ?n) * 100))"
    using False n by (simp add: calculate_difference_def truediv_def Let_def)
  have d2: "calculate_difference_percentage rnd original stored = rnd (rnd (of_int ?c2 / of_int ?n) * 100)"
    using False n by (simp add: calculate_difference_percentage_def truediv_def Let_def)
  have e1: "calculate_difference rnd original original = Inr 0"
    by (simp add: calculate_difference_def)
  have e2: "calculate_difference_percentage rnd original original = 0"
    by (simp add: calculate_difference_percentage_def)
  show ?thesis using b1 b2 d1 d2 e1 e2 by simp
qed

theorem difference_percentage_bounds_witness:
  "(\<exists>v. calculate_difference (\<lambda>x. x) ''abc'' ''abd'' = Inr v \<and> 0 \<le> v \<and> v \<le> 100)
       \<and> calculate_difference (\<lambda>x. x) ''abc'' ''abc'' = Inr 0
       \<and> 0 \<le> calculate_difference_percentage (\<lambda>x. x) ''abc'' ''abd''
       \<and> calculate_difference_percentage (\<lambda>x. x) ''abc'' ''abd'' \<le> 100
       \<and> calculate_difference_percentage (\<lambda>x. x) ''abc'' ''abc'' = 0"
  by (rule difference_percentage_bounds [of "\<lambda>x. x" "''abc''" "''abd''"]) (simp_all add: mono_def)

section \<open>Properties of the tables\<close>

lemma fold_max_ge: "(m::nat) \<le> fold max xs m"
  by (induction xs arbitrary: m) (auto intro: order_trans [OF max.cobounded2])

lemma fold_max_mem: "x \<in> set xs \<Longrightarrow> (x::nat) \<le> fold max xs m"
proof (induction xs arbitrary: m)
  case Nil
  then show ?case by simp
next
  case (Cons a xs)
  show ?case
  proof (cases "x = a")
    case True
    have "a \<le> max a m" by simp
    also have "\<dots> \<le> fold max xs (max a m)" by (rule fold_max_ge)
    finally show ?thesis using True by simp
  next
    case False
    with Cons show ?thesis by simp
  qed
qed

lemma next_rowid_fresh: "p \<in> set (rows t) \<Longrightarrow> fst p \<noteq> next_rowid t"
proof
  assume p: "p \<in> set (rows t)" and e: "fst p = next_rowid t"
  from p have "fst p \<in> set (map fst (rows t))" by simp
  then have "fst p \<le> fold max (map fst (rows t)) 0" by (rule fold_max_mem)
  then show False using e by (simp add: next_rowid_def)
qed

lemma insert_or_replace_rows:
  "rows (insert_or_replace r t) = rows t @ [(next_rowid t, r)]"
proof -
  have "filter (\<lambda>p. fst p \<noteq> next_rowid t) (rows t) = rows t"
    by (rule filter_True) (simp add: next_rowid_fresh)
  then show ?thesis by (simp add: insert_or_replace_def Let_def)
qed

lemma select_all_insert_or_replace:
  "select_all (insert_or_replace r t) = select_all t @ [r]"
  by (simp add: select_all_def insert_or_replace_rows)

lemma select_all_empty: "select_all empty_table = []"
  by (simp add: select_all_def empty_table_def)

section \<open>Properties of the decoder\<close>

text \<open>
  C9. Decoding a stored value is claimed never to raise. With the \<open>base64\<close> encoding
  a stored value with a code point above 127 (here the one-character string U+00E9,
  as a modlet name or author stored unencoded may hold) raises \<open>UnicodeEncodeError\<close>,
  whatever the base64 library answers.
\<close>

theorem decode_data_non_ascii_raises:
  "decode_data b64decode_utf8 ''base64'' [CHR 0xE9] = Inl UnicodeEncodeError"
  by (simp add: decode_data_def is_ascii_def)

text \<open>On plain ASCII values the decoder always returns.\<close>

lemma decode_data_ascii_returns:
  "is_ascii data \<Longrightarrow> \<exists>s. decode_data b64decode_utf8 enc data = Inr s"
  by (simp add: decode_data_def split: option.splits)

section \<open>Properties of the localization store\<close>

text \<open>
  C3 (amended). Storing a localization row never replaces a stored row: after two
  stores the table holds its former rows followed by both new rows, also when the two
  rows have the same modlet, source path and translation key, and also when they come
  from distinct modlets.
\<close>

theorem localization_rows_never_replaced:
  assumes "length others1 = 14" and "length others2 = 14"
  shows "\<exists>d1 d2.
      store_localization_data d m1 u1 fp1 sp1 file1 menu1 nt1 type1 key1 english1 others1 = Inr d1
    \<and> store_localization_data d1 m2 u2 fp2 sp2 file2 menu2 nt2 type2 key2 english2 others2 = Inr d2
    \<and> select_all (localization_data d2) =
        select_all (localization_data d)
        @ [map (encode_data (encoding d))
             ([m1, u1, fp1, sp1, file1, menu1, nt1, type1, key1, english1] @ others1),
           map (encode_data (encoding d))
             ([m2, u2, fp2, sp2, file2, menu2, nt2, type2, key2, english2] @ others2)]"
  using assms
  by (simp add: store_localization_data_def Let_def select_all_insert_or_replace)

lemma b64_Hello: "encode_data ''base64'' ''Hello'' = ''SGVsbG8=''"
  by (simp add: encode_data_def utf8_encode_def b64_char_def b64_alphabet_def)

lemma b64_Hello_again: "encode_data ''base64'' ''Hello again'' = ''SGVsbG8gYWdhaW4=''"
  by (simp add: encode_data_def utf8_encode_def b64_char_def b64_alphabet_def)

text \<open>
  C3 as stated fails: two rows of the modlet Alpha with the same path and the same key
  are both in the table afterwards (column 9 is the english text, encoded).
\<close>

theorem same_key_row_replaced_counterexample:
  "(case sample_store (initialize ''base64'') ''Alpha'' ''Hello'' of
      Inl e \<Rightarrow> []
    | Inr d1 \<Rightarrow>
        (case sample_store d1 ''Alpha'' ''Hello again'' of
           Inl e \<Rightarrow> []
         | Inr d2 \<Rightarrow> map (\<lambda>row. row ! 9) (select_all (localization_data d2))))
   = [''SGVsbG8='', ''SGVsbG8gYWdhaW4='']"
  by (simp add: sample_store_def store_localization_data_def Let_def select_all_insert_or_replace
      initialize_def select_all_empty b64_Hello b64_Hello_again)

theorem localization_rows_never_replaced_witness:
  "\<exists>d1 d2. sample_store (initialize ''base64'') ''Alpha'' ''Hello'' = Inr d1
     \<and> sample_store d1 ''Alpha'' ''Hello again'' = Inr d2
     \<and> length (select_all (localization_data d2)) = 2"
proof -
  obtain d1 d2 where
    a: "sample_store (initialize ''base64'') ''Alpha'' ''Hello'' = Inr d1"
    and b: "sample_store d1 ''Alpha'' ''Hello again'' = Inr d2"
    and c: "select_all (localization_data d2) =
        select_all (localization_data (initialize ''base64''))
        @ [map (encode_data (encoding (initialize ''base64'')))
             ([''Alpha'', ''id'', ''/mods/'' @ ''Alpha'' @ ''/Config/Localization.txt'',
               ''Config/Localization.txt'', ''UI'', [], [], ''Menu'', ''greeting'', ''Hello'']
              @ replicate 14 []),
           map (encode_data (encoding (initialize ''base64'')))
             ([''Alpha'', ''id'', ''/mods/'' @ ''Alpha'' @ ''/Config/Localization.txt'',
               ''Config/Localization.txt'', ''UI'', [], [], ''Menu'', ''greeting'', ''Hello again'']
              @ replicate 14 [])]"
    using localization_rows_never_replaced [of "replicate 14 []" "replicate 14 []"
        "initialize ''base64''" "''Alpha''" "''id''" "''/mods/'' @ ''Alpha'' @ ''/Config/Localization.txt''"
        "''Config/Localization.txt''" "''UI''" "[]" "[]" "''Menu''" "''greeting''" "''Hello''"
        "''Alpha''" "''id''" "''/mods/'' @ ''Alpha'' @ ''/Config/Localization.txt''"
        "''Config/Localization.txt''" "''UI''" "[]" "[]" "''Menu''" "''greeting''" "''Hello again''"]
    unfolding sample_store_def by auto
  have "length (select_all (localization_data d2)) = 2"
    unfolding c by (simp add: initialize_def select_all_empty)
  with a b show ?thesis by blast
qed

section \<open>Properties of the modlet identifier\<close>














section \<open>Properties of the XML fragment normalizer\<close>

lemma lstrip_items: "lstrip sample_items_xml = sample_items_xml"
  by (simp add: lstrip_def sample_items_xml_def is_space_def)

lemma lstrip_modinfo: "lstrip sample_modinfo_xml = sample_modinfo_xml"
  by (simp add: lstrip_def sample_modinfo_xml_def is_space_def)

lemma samples_differ: "ensure_declaration sample_modinfo_xml \<noteq> ensure_declaration sample_items_xml"
  by (simp add: ensure_declaration_def sample_modinfo_xml_def sample_items_xml_def)

lemma short_path_items: "XMLParser_get_short_path ''/mods/Alpha/Config/items.xml'' = ''items.xml''"
  by (simp add: XMLParser_get_short_path_def)

lemma short_path_modinfo: "XMLParser_get_short_path ''/mods/Alpha/ModInfo.xml'' = ''ModInfo.xml''"
  by (simp add: XMLParser_get_short_path_def)






section \<open>Properties of the file discovery\<close>

lemma suffix_xml_modinfo: "suffix ''.xml'' ''ModInfo.xml''"
  by (simp add: suffix_to_prefix)

lemma suffix_xml_items: "suffix ''.xml'' ''items.xml''"
  by (simp add: suffix_to_prefix)

lemma sample_located:
  "locate_files sample_walk sample_locator ''.xml'' ''/mods/Alpha'' [''ModInfo.xml'']
     = ([''/mods/Alpha/ModInfo.xml'', ''/mods/Alpha/Config/items.xml''],
        sample_locator\<lparr>xml_files := [''/mods/Alpha/ModInfo.xml'', ''/mods/Alpha/Config/items.xml'']\<rparr>)"
  by (simp add: locate_files_def Let_def sample_walk_def sample_locator_def os_path_join_def
      suffix_xml_modinfo suffix_xml_items suffix_to_prefix)

text \<open>
  C7. The descriptor \<open>ModInfo.xml\<close> is claimed never to be collected or stored as a
  fragment. \<open>locate_files\<close> tests the excluded names against the directory path, not
  against the file name, so for a modlet directory with \<open>ModInfo.xml\<close> and
  \<open>Config/items.xml\<close> the descriptor is located, parsed and stored as a content block
  under the short path \<open>ModInfo.xml\<close>.
\<close>

theorem modinfo_collected_and_stored:
  "fst (process_modlet_files sample_walk sample_read_file sample_fromstring sample_locator
          ''/mods/Alpha'' ''Alpha'' ''id'' (initialize ''base64''))
     = [''/mods/Alpha/ModInfo.xml'', ''/mods/Alpha/Config/items.xml'']
   \<and> map (\<lambda>r. (short_path r, outer_tag r))
       (select_all (xml_data (snd (snd (process_modlet_files sample_walk sample_read_file
          sample_fromstring sample_locator ''/mods/Alpha'' ''Alpha'' ''id'' (initialize ''base64''))))))
     = [(''ModInfo.xml'', ''xml''), (''items.xml'', ''items'')]"
  by (simp add: process_modlet_files_def sample_located process_files_def process_xml_file_def
      sample_read_file_def XMLParser_parse_def Let_def lstrip_items lstrip_modinfo
      sample_fromstring_def samples_differ store_xml_data_def select_all_insert_or_replace
      initialize_def select_all_empty short_path_items short_path_modinfo
      sample_items_root_def sample_modinfo_root_def)

section \<open>Properties of the integrity reporter\<close>

text \<open>
  C8 (amended). After writing, the integrity check compares the summed size of all
  written files with the summed length of the written texts. With a recorded total
  other than zero it never raises: it answers whether the computed percentage is at
  most 5 and logs one line with that percentage, a warning exactly when it exceeds 5.
\<close>

theorem check_total_filesize_advisory:
  assumes "original_total_size w \<noteq> 0"
  shows "check_total_filesize rnd w =
     (let pct = rnd (rnd (of_int \<bar>sum_list (map snd (written_files w)) - original_total_size w\<bar>
                            / of_int (original_total_size w)) * 100)
      in Inr (pct \<le> 5, if pct \<le> 5 then Debug_within pct else Warning_differs pct))"
  using assms by (simp add: check_total_filesize_def truediv_def Let_def)

lemma sample_writer_eq:
  "sample_writer = \<lparr>total_size = 1020, original_total_size = 1010,
      written_files = [(''Config/a.xml'', 20), (''Config/b.xml'', 1000)]\<rparr>"
  by (simp add: sample_writer_def update_file_size_def XMLWriter_init_def)

theorem check_total_filesize_advisory_witness:
  "check_total_filesize (\<lambda>x. x) sample_writer = Inr (True, Debug_within (100 / 101))"
  using check_total_filesize_advisory [of sample_writer "\<lambda>x. x"]
  by (simp add: sample_writer_eq Let_def)

text \<open>
  C8 as stated fails: the file \<open>Config/a.xml\<close> was written with 20 bytes for a text of
  10 characters, a deviation of 100 percent, and the check logs no warning, since the
  totals differ by less than one percent.
\<close>

theorem deviating_file_not_flagged_counterexample:
  "map_of (written_files sample_writer) ''Config/a.xml'' = Some 20
   \<and> 5 * 10 < 100 * \<bar>20 - 10 :: int\<bar>
   \<and> check_total_filesize (\<lambda>x. x) sample_writer = Inr (True, Debug_within (100 / 101))"
  by (simp add: sample_writer_eq check_total_filesize_def truediv_def Let_def)

text \<open>When nothing was written the recorded total is zero and the check raises.\<close>

lemma check_total_filesize_zero_total:
  "check_total_filesize rnd XMLWriter_init = Inl ZeroDivisionError"
  by (simp add: check_total_filesize_def truediv_def XMLWriter_init_def)

section \<open>Properties of the localization row normalizer\<close>

lemma six_fields:
  assumes "6 \<le> length xs"
  shows "\<exists>a b c e f g r. xs = a # b # c # e # f # g # r"
proof -
  from assms obtain a r1 where 1: "xs = a # r1" and l1: "5 \<le> length r1" by (cases xs) auto
  from l1 obtain b r2 where 2: "r1 = b # r2" and l2: "4 \<le> length r2" by (cases r1) auto
  from l2 obtain c r3 where 3: "r2 = c # r3" and l3: "3 \<le> length r3" by (cases r2) auto
  from l3 obtain e r4 where 4: "r3 = e # r4" and l4: "2 \<le> length r4" by (cases r3) auto
  from l4 obtain f r5 where 5: "r4 = f # r5" and l5: "1 \<le> length r5" by (cases r4) auto
  from l5 obtain g r6 where 6: "r5 = g # r6" by (cases r5) auto
  show ?thesis using 1 2 3 4 5 6 by blast
qed

lemma take_20_fields:
  assumes "20 \<le> length row"
  shows "take 20 row = row ! 0 # row ! 1 # row ! 2 # row ! 3 # row ! 4 # row ! 5 # take 14 (drop 6 row)"
proof -
  from assms have "6 \<le> length row" by simp
  then obtain a b c e f g r where row: "row = a # b # c # e # f # g # r"
    using six_fields by blast
  have "take 20 row = a # b # c # e # f # g # take 14 r"
    unfolding row by (simp add: numeral_eq_Suc)
  then show ?thesis by (simp add: row numeral_eq_Suc)
qed

lemma parse_row_accepts:
  assumes "row \<noteq> []" and "\<not> prefix ''#'' (hd row)" and "20 \<le> length row"
  shows "parse_row fp m u sp d row =
     Inr (d\<lparr>localization_data := insert_or_replace
            (map (encode_data (encoding d))
               ([m, u, fp, sp, row ! 1, row ! 3, row ! 4, row ! 2, row ! 0, row ! 5]
                @ take 14 (drop 6 row)))
            (localization_data d)\<rparr>)"
  using assms
  by (simp add: parse_row_def take_20_fields store_localization_data_def Let_def)

lemma parse_row_rejects:
  assumes "length row < 20"
  shows "parse_row fp m u sp d row = Inr d"
  using assms by (simp add: parse_row_def)

text \<open>
  C5. For a data line (a row that is not empty and whose first field does not start
  with the comment marker): a row of fewer than 20 fields is skipped and the loop goes
  on with the following rows from the same store; a row of 20 or more fields is
  stored as one new row built from its first 20 fields only, so that the row cut to 20
  fields has the same effect, and the loop goes on.
\<close>

theorem short_rows_rejected_extras_ignored:
  assumes "row \<noteq> []" and "\<not> prefix ''#'' (hd row)"
  shows "(length row < 20 \<longrightarrow>
            parse_rows fp m u sp d (row # later) = parse_rows fp m u sp d later)
       \<and> (20 \<le> length row \<longrightarrow>
            (\<exists>d'. parse_rows fp m u sp d (row # later) = parse_rows fp m u sp d' later
               \<and> parse_rows fp m u sp d (take 20 row # later) = parse_rows fp m u sp d' later
               \<and> encoding d' = encoding d \<and> xml_data d' = xml_data d
               \<and> select_all (localization_data d')
                   = select_all (localization_data d)
                     @ [map (encode_data (encoding d))
                          ([m, u, fp, sp, row ! 1, row ! 3, row ! 4, row ! 2, row ! 0, row ! 5]
                           @ take 14 (drop 6 row))]))"
proof (intro conjI impI)
  assume "length row < 20"
  then show "parse_rows fp m u sp d (row # later) = parse_rows fp m u sp d later"
    by (simp add: parse_row_rejects)
next
  assume len: "20 \<le> length row"
  let ?stored = "map (encode_data (encoding d))
      ([m, u, fp, sp, row ! 1, row ! 3, row ! 4, row ! 2, row ! 0, row ! 5] @ take 14 (drop 6 row))"
  let ?d' = "d\<lparr>localization_data := insert_or_replace ?stored (localization_data d)\<rparr>"
  have a: "parse_row fp m u sp d row = Inr ?d'"
    using assms len by (rule parse_row_accepts)
  have t: "take 20 row \<noteq> []" "hd (take 20 row) = hd row" "20 \<le> length (take 20 row)"
    using len assms(1) by (auto simp: hd_take)
  have idx: "take 20 row ! 0 = row ! 0" "take 20 row ! 1 = row ! 1" "take 20 row ! 2 = row ! 2"
    "take 20 row ! 3 = row ! 3" "take 20 row ! 4 = row ! 4" "take 20 row ! 5 = row ! 5"
    by simp_all
  have dr: "take 14 (drop 6 (take 20 row)) = take 14 (drop 6 row)"
    by (simp add: drop_take)
  have b: "parse_row fp m u sp d (take 20 row) = Inr ?d'"
    using parse_row_accepts [of "take 20 row" fp m u sp d] t assms(2)
    by (simp only: idx dr) simp
  show "\<exists>d'. parse_rows fp m u sp d (row # later) = parse_rows fp m u sp d' later
      \<and> parse_rows fp m u sp d (take 20 row # later) = parse_rows fp m u sp d' later
      \<and> encoding d' = encoding d \<and> xml_data d' = xml_data d
      \<and> select_all (localization_data d') = select_all (localization_data d) @ [?stored]"
    using a b by (intro exI [of _ ?d']) (simp add: select_all_insert_or_replace)
qed

theorem short_rows_rejected_extras_ignored_witness:
  "parse_rows ''/mods/Alpha/Config/Localization.txt'' ''Alpha'' ''id'' ''Config/Localization.txt''
       (initialize ''base64'') [sample_row19]
     = (initialize ''base64'', None)
   \<and> (\<exists>d'. parse_rows ''/mods/Alpha/Config/Localization.txt'' ''Alpha'' ''id''
              ''Config/Localization.txt'' (initialize ''base64'') [sample_row21] = (d', None)
          \<and> parse_rows ''/mods/Alpha/Config/Localization.txt'' ''Alpha'' ''id''
              ''Config/Localization.txt'' (initialize ''base64'') [take 20 sample_row21] = (d', None)
          \<and> length (select_all (localization_data d')) = 1)"
proof -
  have h19: "sample_row19 \<noteq> []" "\<not> prefix ''#'' (hd sample_row19)" "length sample_row19 < 20"
    by (simp_all add: sample_row19_def)
  have h21: "sample_row21 \<noteq> []" "\<not> prefix ''#'' (hd sample_row21)" "20 \<le> length sample_row21"
    by (simp_all add: sample_row21_def)
  have a: "parse_rows ''/mods/Alpha/Config/Localization.txt'' ''Alpha'' ''id'' ''Config/Localization.txt''
       (initialize ''base64'') [sample_row19] = (initialize ''base64'', None)"
    using short_rows_rejected_extras_ignored [OF h19(1,2), of "''/mods/Alpha/Config/Localization.txt''"
        "''Alpha''" "''id''" "''Config/Localization.txt''" "initialize ''base64''" "[]"] h19(3)
    by simp
  have b: "\<exists>d'. parse_rows ''/mods/Alpha/Config/Localization.txt'' ''Alpha'' ''id''
              ''Config/Localization.txt'' (initialize ''base64'') [sample_row21] = (d', None)
          \<and> parse_rows ''/mods/Alpha/Config/Localization.txt'' ''Alpha'' ''id''
              ''Config/Localization.txt'' (initialize ''base64'') [take 20 sample_row21] = (d', None)
          \<and> length (select_all (localization_data d')) = 1"
    using short_rows_rejected_extras_ignored [OF h21(1,2), of "''/mods/Alpha/Config/Localization.txt''"
        "''Alpha''" "''id''" "''Config/Localization.txt''" "initialize ''base64''" "[]"] h21(3)
    by (auto simp: initialize_def select_all_empty)
  show ?thesis using a b by blast
qed

section \<open>Properties of the combined localization table\<close>

lemma line_parts_quoting:
  "map (line_part entry) EXPECTED_HEADER =
     map (\<lambda>column. dict_get entry (lower column) []) (take 5 EXPECTED_HEADER)
     @ map (\<lambda>column. let v = dict_get entry (lower column) []
                      in if v = [] then [] else ''\"'' @ v @ ''\"'') (drop 5 EXPECTED_HEADER)"
  by (simp add: EXPECTED_HEADER_def QUOTED_COLUMNS_def TARGET_LANGUAGES_def line_part_def Let_def)

lemma take_drop_nths:
  "k + n \<le> length xs \<Longrightarrow> take n (drop k xs) = map ((!) xs) [k ..< k + n]"
  by (intro nth_equalityI) simp_all

lemma fields_6_to_20:
  assumes "20 \<le> length row"
  shows "take 14 (drop 6 row) = map ((!) row) [6 ..< 20]"
  using take_drop_nths [of 6 14 row] assms by simp

lemma upt_6_20: "[6 ..< 20] = [6, 7, 8, 9, 10, 11, 12, 13, 14, 15, 16, 17, 18, 19::nat]"
  by code_simp

lemma upt_6_19: "[6 ..< 19] = [6, 7, 8, 9, 10, 11, 12, 13, 14, 15, 16, 17, 18::nat]"
  by code_simp

lemma decode_row_encoded:
  assumes "\<forall>x\<in>set xs. decode_data b enc (encode_data enc x) = Inr x"
  shows "decode_row b enc (map (encode_data enc) xs) = Inr xs"
  using assms by (induction xs) simp_all

lemma lower_header:
  "map lower EXPECTED_HEADER =
     [''key'', ''file'', ''type'', ''usedinmainmenu'', ''notranslate'', ''english'',
      ''context / alternate text'', ''german'', ''latam'', ''french'', ''italian'', ''japanese'',
      ''koreana'', ''polish'', ''brazilian'', ''russian'', ''turkish'', ''schinese'', ''tchinese'',
      ''spanish'']"
  by code_simp

lemma quote_nonempty_Nil: "quote_nonempty [] = []"
  by (simp add: quote_nonempty_def)

lemma line_parts_of_stored_row:
  "map (line_part (zip localization_columns
          [a0, a1, a2, a3, a4, a5, a6, a7, a8, a9, a10, a11, a12, a13, a14, a15, a16, a17,
           a18, a19, a20, a21, a22, a23])) EXPECTED_HEADER =
     [a8, a4, a7, [], [], quote_nonempty a9, [], quote_nonempty a10, quote_nonempty a11,
      quote_nonempty a12, quote_nonempty a13, quote_nonempty a14, quote_nonempty a15,
      quote_nonempty a16, quote_nonempty a17, quote_nonempty a18, quote_nonempty a19,
      quote_nonempty a20, quote_nonempty a21, quote_nonempty a22]"
proof -
  have "map (line_part e) EXPECTED_HEADER =
     map (\<lambda>k. dict_get e k []) (take 5 (map lower EXPECTED_HEADER))
     @ map (\<lambda>k. quote_nonempty (dict_get e k [])) (drop 5 (map lower EXPECTED_HEADER))" for e
    by (simp add: line_parts_quoting quote_nonempty_def Let_def take_map drop_map o_def)
  then show ?thesis
    by (simp add: lower_header localization_columns_def dict_get_def quote_nonempty_Nil)
qed

lemma stored_row_line:
  assumes "20 \<le> length row"
  shows "localization_line (zip localization_columns
           ([m, u, fp, sp, row ! 1, row ! 3, row ! 4, row ! 2, row ! 0, row ! 5]
            @ take 14 (drop 6 row))) =
     join '','' ([row ! 0, row ! 1, row ! 2, [], [], quote_nonempty (row ! 5), []]
                 @ map (\<lambda>i. quote_nonempty (row ! i)) [6 ..< 19]) @ ''\<newline>''"
  by (simp only: fields_6_to_20 [OF assms] upt_6_20 upt_6_19 list.map append.simps
      localization_line_def line_parts_of_stored_row)

lemma write_localization_file_lines:
  assumes "get_localization_data b64decode_utf8 d [] [] = Inr entries" and "entries \<noteq> []"
  shows "write_localization_file b64decode_utf8 d =
       Inr (Some (join '','' EXPECTED_HEADER @ ''\<newline>'' @ concat (map localization_line entries)))"
  using assms by (simp add: write_localization_file_def)

lemma single_row_entries:
  assumes "decode_row b64decode_utf8 enc r = Inr vs"
  shows "get_localization_data b64decode_utf8
           ((initialize enc)\<lparr>localization_data := insert_or_replace r empty_table\<rparr>) [] [] =
         Inr [zip localization_columns vs]"
  using assms
  by (simp add: get_localization_data_def select_all_insert_or_replace select_all_empty
      initialize_def)

text \<open>
  C4. The combined table is claimed to hold, after the header, one row for each
  retained localization row, with each column's value under its header name. For a
  file whose reader yields the header and one data row of 20 fields or more, every
  stored text decoding to itself, the parser stores the row and the assembler writes
  the static header line of 20 columns and one line for the row. In that line only
  Key, File, Type and english carry their own field. UsedInMainMenu, NoTranslate and
  Context / Alternate Text are always empty: the lower-cased header names
  \<open>usedinmainmenu\<close>, \<open>notranslate\<close> and \<open>context / alternate text\<close> are no column
  names of the store. Each of the thirteen language columns holds the field one place
  to its left: the parser passes the fields after english by position, so the seventh
  field (the alternate text) is stored as \<open>german\<close>, and the twentieth (\<open>spanish\<close>) as
  \<open>value\<close>, which is never written. The columns from english on are in double
  quotes when they are not empty, the first five never.
\<close>

theorem localization_columns_lost_and_shifted:
  assumes "csv_reader content' = header # [row]"
    and "row \<noteq> []" and "\<not> prefix ''#'' (hd row)" and "20 \<le> length row"
    and "\<forall>x\<in>set ([m, u, fp, LocalizationParser_get_short_path fp] @ take 20 row).
           decode_data b64decode_utf8 enc (encode_data enc x) = Inr x"
  shows "snd (LocalizationParser_parse csv_reader fp m u content' (initialize enc)) = None
     \<and> write_localization_file b64decode_utf8
           (fst (LocalizationParser_parse csv_reader fp m u content' (initialize enc))) =
         Inr (Some (join '','' EXPECTED_HEADER @ ''\<newline>''
                    @ join '','' ([row ! 0, row ! 1, row ! 2, [], [], quote_nonempty (row ! 5), []]
                                  @ map (\<lambda>i. quote_nonempty (row ! i)) [6 ..< 19])
                    @ ''\<newline>''))"
proof -
  let ?sp = "LocalizationParser_get_short_path fp"
  let ?fields = "[m, u, fp, ?sp, row ! 1, row ! 3, row ! 4, row ! 2, row ! 0, row ! 5]
                 @ take 14 (drop 6 row)"
  let ?d = "(initialize enc)\<lparr>localization_data :=
              insert_or_replace (map (encode_data enc) ?fields) empty_table\<rparr>"
  have enc: "encoding (initialize enc) = enc" and tab: "localization_data (initialize enc) = empty_table"
    by (simp_all add: initialize_def)
  have parse: "LocalizationParser_parse csv_reader fp m u content' (initialize enc) = (?d, None)"
    using assms(1) parse_row_accepts [OF assms(2-4), of fp m u ?sp "initialize enc"]
    by (simp add: LocalizationParser_parse_def Let_def enc tab)
  have "set ?fields \<subseteq> set ([m, u, fp, ?sp] @ take 20 row)"
    by (auto simp add: take_20_fields [OF assms(4)])
  with assms(5) have "\<forall>x\<in>set ?fields. decode_data b64decode_utf8 enc (encode_data enc x) = Inr x"
    by blast
  then have dec: "decode_row b64decode_utf8 enc (map (encode_data enc) ?fields) = Inr ?fields"
    by (rule decode_row_encoded)
  have entries: "get_localization_data b64decode_utf8 ?d [] [] = Inr [zip localization_columns ?fields]"
    using dec by (rule single_row_entries)
  have "write_localization_file b64decode_utf8 ?d =
       Inr (Some (join '','' EXPECTED_HEADER @ ''\<newline>''
                  @ concat (map localization_line [zip localization_columns ?fields])))"
    by (rule write_localization_file_lines [OF entries]) simp
  then show ?thesis
    by (simp only: parse fst_conv snd_conv stored_row_line [OF assms(4)] list.map concat.simps
        append_Nil2 simp_thms)
qed

text \<open>The sample decoder on the encodings of the sample texts.\<close>

lemma sample_encodings:
  "encode_data ''base64'' ''Alpha'' = ''QWxwaGE=''"
  "encode_data ''base64'' ''Beta'' = ''QmV0YQ==''"
  "encode_data ''base64'' ''id'' = ''aWQ=''"
  "encode_data ''base64'' ''/mods/Alpha/Config/Localization.txt'' = ''L21vZHMvQWxwaGEvQ29uZmlnL0xvY2FsaXphdGlvbi50eHQ=''"
  "encode_data ''base64'' ''Config/Localization.txt'' = ''Q29uZmlnL0xvY2FsaXphdGlvbi50eHQ=''"
  "encode_data ''base64'' ''UI'' = ''VUk=''"
  "encode_data ''base64'' ''Menu'' = ''TWVudQ==''"
  "encode_data ''base64'' ''greeting'' = ''Z3JlZXRpbmc=''"
  "encode_data ''base64'' ''Hello'' = ''SGVsbG8=''"
  "encode_data ''base64'' ''<a />'' = ''PGEgLz4=''"
  "encode_data ''base64'' ''<b />'' = ''PGIgLz4=''"
  "encode_data ''base64'' ''<c />'' = ''PGMgLz4=''"
  "encode_data ''base64'' ''f0'' = ''ZjA=''"
  "encode_data ''base64'' ''f1'' = ''ZjE=''"
  "encode_data ''base64'' ''f2'' = ''ZjI=''"
  "encode_data ''base64'' ''f3'' = ''ZjM=''"
  "encode_data ''base64'' ''f4'' = ''ZjQ=''"
  "encode_data ''base64'' ''f5'' = ''ZjU=''"
  "encode_data ''base64'' ''f6'' = ''ZjY=''"
  "encode_data ''base64'' ''f7'' = ''Zjc=''"
  "encode_data ''base64'' ''f8'' = ''Zjg=''"
  "encode_data ''base64'' ''f9'' = ''Zjk=''"
  "encode_data ''base64'' ''f10'' = ''ZjEw''"
  "encode_data ''base64'' ''f11'' = ''ZjEx''"
  "encode_data ''base64'' ''f12'' = ''ZjEy''"
  "encode_data ''base64'' ''f13'' = ''ZjEz''"
  "encode_data ''base64'' ''f14'' = ''ZjE0''"
  "encode_data ''base64'' ''f15'' = ''ZjE1''"
  "encode_data ''base64'' ''f16'' = ''ZjE2''"
  "encode_data ''base64'' ''f17'' = ''ZjE3''"
  "encode_data ''base64'' ''f18'' = ''ZjE4''"
  "encode_data ''base64'' ''f19'' = ''ZjE5''"
  by (simp_all add: encode_data_def utf8_encode_def b64_char_def b64_alphabet_def)

lemma sample_decodings:
  "decode_data sample_b64decode_utf8 ''base64'' ''QWxwaGE='' = Inr ''Alpha''"
  "decode_data sample_b64decode_utf8 ''base64'' ''QmV0YQ=='' = Inr ''Beta''"
  "decode_data sample_b64decode_utf8 ''base64'' ''aWQ='' = Inr ''id''"
  "decode_data sample_b64decode_utf8 ''base64'' ''L21vZHMvQWxwaGEvQ29uZmlnL0xvY2FsaXphdGlvbi50eHQ='' = Inr ''/mods/Alpha/Config/Localization.txt''"
  "decode_data sample_b64decode_utf8 ''base64'' ''Q29uZmlnL0xvY2FsaXphdGlvbi50eHQ='' = Inr ''Config/Localization.txt''"
  "decode_data sample_b64decode_utf8 ''base64'' ''VUk='' = Inr ''UI''"
  "decode_data sample_b64decode_utf8 ''base64'' ''TWVudQ=='' = Inr ''Menu''"
  "decode_data sample_b64decode_utf8 ''base64'' ''Z3JlZXRpbmc='' = Inr ''greeting''"
  "decode_data sample_b64decode_utf8 ''base64'' ''SGVsbG8='' = Inr ''Hello''"
  "decode_data sample_b64decode_utf8 ''base64'' ''PGEgLz4='' = Inr ''<a />''"
  "decode_data sample_b64decode_utf8 ''base64'' ''PGIgLz4='' = Inr ''<b />''"
  "decode_data sample_b64decode_utf8 ''base64'' ''PGMgLz4='' = Inr ''<c />''"
  "decode_data sample_b64decode_utf8 ''base64'' ''ZjA='' = Inr ''f0''"
  "decode_data sample_b64decode_utf8 ''base64'' ''ZjE='' = Inr ''f1''"
  "decode_data sample_b64decode_utf8 ''base64'' ''ZjI='' = Inr ''f2''"
  "decode_data sample_b64decode_utf8 ''base64'' ''ZjM='' = Inr ''f3''"
  "decode_data sample_b64decode_utf8 ''base64'' ''ZjQ='' = Inr ''f4''"
  "decode_data sample_b64decode_utf8 ''base64'' ''ZjU='' = Inr ''f5''"
  "decode_data sample_b64decode_utf8 ''base64'' ''ZjY='' = Inr ''f6''"
  "decode_data sample_b64decode_utf8 ''base64'' ''Zjc='' = Inr ''f7''"
  "decode_data sample_b64decode_utf8 ''base64'' ''Zjg='' = Inr ''f8''"
  "decode_data sample_b64decode_utf8 ''base64'' ''Zjk='' = Inr ''f9''"
  "decode_data sample_b64decode_utf8 ''base64'' ''ZjEw'' = Inr ''f10''"
  "decode_data sample_b64decode_utf8 ''base64'' ''ZjEx'' = Inr ''f11''"
  "decode_data sample_b64decode_utf8 ''base64'' ''ZjEy'' = Inr ''f12''"
  "decode_data sample_b64decode_utf8 ''base64'' ''ZjEz'' = Inr ''f13''"
  "decode_data sample_b64decode_utf8 ''base64'' ''ZjE0'' = Inr ''f14''"
  "decode_data sample_b64decode_utf8 ''base64'' ''ZjE1'' = Inr ''f15''"
  "decode_data sample_b64decode_utf8 ''base64'' ''ZjE2'' = Inr ''f16''"
  "decode_data sample_b64decode_utf8 ''base64'' ''ZjE3'' = Inr ''f17''"
  "decode_data sample_b64decode_utf8 ''base64'' ''ZjE4'' = Inr ''f18''"
  "decode_data sample_b64decode_utf8 ''base64'' ''ZjE5'' = Inr ''f19''"
  by (simp_all add: decode_data_def is_ascii_def sample_b64decode_utf8_def sample_texts_def
      sample_encodings)

text \<open>The sample row of 20 different fields, parsed and written.\<close>

lemma sample_short_path:
  "LocalizationParser_get_short_path ''/mods/Alpha/Config/Localization.txt'' = ''Config/Localization.txt''"
  by code_simp

lemma sample_row20_written:
  "join '','' EXPECTED_HEADER @ ''\<newline>''
     @ join '','' ([sample_row20 ! 0, sample_row20 ! 1, sample_row20 ! 2, [], [],
                   quote_nonempty (sample_row20 ! 5), []]
                  @ map (\<lambda>i. quote_nonempty (sample_row20 ! i)) [6 ..< 19])
     @ ''\<newline>'' =
   ''Key,File,Type,UsedInMainMenu,NoTranslate,english,Context / Alternate Text,german,latam,french,italian,japanese,koreana,polish,brazilian,russian,turkish,schinese,tchinese,spanish\<newline>''
   @ ''f0,f1,f2,,,\"f5\",,\"f6\",\"f7\",\"f8\",\"f9\",\"f10\",\"f11\",\"f12\",\"f13\",\"f14\",\"f15\",\"f16\",\"f17\",\"f18\"\<newline>''"
  by code_simp

theorem localization_columns_lost_and_shifted_witness:
  "snd (LocalizationParser_parse sample_csv_reader ''/mods/Alpha/Config/Localization.txt'' ''Alpha''
            ''id'' sample_localization_txt (initialize ''base64'')) = None
   \<and> write_localization_file sample_b64decode_utf8
       (fst (LocalizationParser_parse sample_csv_reader ''/mods/Alpha/Config/Localization.txt'' ''Alpha''
            ''id'' sample_localization_txt (initialize ''base64''))) =
     Inr (Some (''Key,File,Type,UsedInMainMenu,NoTranslate,english,Context / Alternate Text,german,latam,french,italian,japanese,koreana,polish,brazilian,russian,turkish,schinese,tchinese,spanish\<newline>''
                @ ''f0,f1,f2,,,\"f5\",,\"f6\",\"f7\",\"f8\",\"f9\",\"f10\",\"f11\",\"f12\",\"f13\",\"f14\",\"f15\",\"f16\",\"f17\",\"f18\"\<newline>''))"
proof -
  have reader: "sample_csv_reader sample_localization_txt = EXPECTED_HEADER # [sample_row20]"
    by (simp add: sample_csv_reader_def)
  have nonempty: "sample_row20 \<noteq> []"
    by (simp add: sample_row20_def)
  have data: "\<not> prefix ''#'' (hd sample_row20)"
    by (simp add: sample_row20_def)
  have fields: "20 \<le> length sample_row20"
    by (simp add: sample_row20_def)
  have decoding:
    "\<forall>x\<in>set ([''Alpha'', ''id'', ''/mods/Alpha/Config/Localization.txt'',
               LocalizationParser_get_short_path ''/mods/Alpha/Config/Localization.txt'']
              @ take 20 sample_row20).
       decode_data sample_b64decode_utf8 ''base64'' (encode_data ''base64'' x) = Inr x"
    by (simp add: sample_short_path sample_row20_def sample_encodings sample_decodings)
  from localization_columns_lost_and_shifted [where csv_reader = sample_csv_reader and content' = sample_localization_txt,
      OF reader nonempty data fields decoding]
  show ?thesis by (simp only: sample_row20_written)
qed

section \<open>Properties of the merge assembler\<close>

text \<open>First occurrences, and assignments to a \<open>dict\<close>.\<close>

lemma set_first_seen: "set (first_seen xs) = set xs"
  by (induction xs) auto

lemma distinct_first_seen: "distinct (first_seen xs)"
  by (induction xs) (auto simp: set_first_seen)

lemma first_seen_snoc:
  "first_seen (xs @ [x]) = (if x \<in> set xs then first_seen xs else first_seen xs @ [x])"
proof (induction xs)
  case Nil
  show ?case by simp
next
  case (Cons a xs)
  show ?case using Cons by (auto simp: set_first_seen)
qed

lemma map_of_dict_set: "map_of (dict_set k v d) k' = (if k' = k then Some v else map_of d k')"
  by (induction d) auto

lemma keys_dict_set:
  "map fst (dict_set k v d) = (if k \<in> set (map fst d) then map fst d else map fst d @ [k])"
  by (induction d) auto

lemma dict_set_twice: "dict_set k v (dict_set k v' d) = dict_set k v d"
  by (induction d) auto

lemma dict_get_dict_set:
  "dict_get (dict_set k v d) k' dflt = (if k' = k then v else dict_get d k' dflt)"
  by (simp add: dict_get_def map_of_dict_set)

lemma add_block_eq:
  "add_block p t c X =
     dict_set p (dict_set t (dict_get (dict_get X p []) t [] @ [c]) (dict_get X p [])) X"
proof -
  let ?xml1 = "if map_of X p = None then dict_set p [] X else X"
  let ?inner = "dict_get X p []"
  let ?inner1 = "if map_of ?inner t = None then dict_set t [] ?inner else ?inner"
  have i: "dict_get ?xml1 p [] = ?inner"
    by (simp add: dict_get_dict_set) (simp add: dict_get_def)
  have b: "dict_get ?inner1 t [] = dict_get ?inner t []"
    by (simp add: dict_get_dict_set) (simp add: dict_get_def)
  have s1: "dict_set t v ?inner1 = dict_set t v ?inner" for v
    by (simp add: dict_set_twice)
  have s2: "dict_set p v ?xml1 = dict_set p v X" for v
    by (simp add: dict_set_twice)
  show ?thesis
    unfolding add_block_def Let_def i b s1 s2 ..
qed


text \<open>What one step of the grouping loop does to the keys and to the inner \<open>dict\<close>.\<close>

lemma keys_add_block:
  "map fst (add_block p t c X) = (if p \<in> set (map fst X) then map fst X else map fst X @ [p])"
  by (simp only: add_block_eq keys_dict_set)

lemma inner_add_block:
  "dict_get (add_block p t c X) p' [] =
     (if p' = p then dict_set t (dict_get (dict_get X p []) t [] @ [c]) (dict_get X p [])
      else dict_get X p' [])"
  by (simp only: add_block_eq dict_get_dict_set)

lemma group_rows_fold:
  "group_rows b enc rs X = Inr X' \<Longrightarrow>
     X' = fold (\<lambda>r. add_block (short_path r) (outer_tag r) (decoded b enc (content r))) rs X"
proof (induction rs arbitrary: X)
  case Nil
  then show ?case by simp
next
  case (Cons r rs)
  from Cons.prems obtain s where s: "decode_data b enc (content r) = Inr s"
    and rest: "group_rows b enc rs (add_block (short_path r) (outer_tag r) s X) = Inr X'"
    by (auto split: sum.splits)
  have "decoded b enc (content r) = s" by (simp add: decoded_def s)
  with Cons.IH [OF rest] show ?case by simp
qed

lemma grouped_keys:
  "map fst (fold (\<lambda>r. add_block (short_path r) (outer_tag r) (f r)) rs [])
     = first_seen (map short_path rs)"
proof (induction rs rule: rev_induct)
  case Nil
  show ?case by simp
next
  case (snoc r rs)
  then show ?case
    by (simp add: keys_add_block first_seen_snoc set_first_seen)
qed

lemma grouped_tags:
  "map fst (dict_get (fold (\<lambda>r. add_block (short_path r) (outer_tag r) (f r)) rs []) p [])
     = first_seen (map outer_tag (filter (\<lambda>r. short_path r = p) rs))"
proof (induction rs rule: rev_induct)
  case Nil
  show ?case by (simp add: dict_get_def)
next
  case (snoc r rs)
  show ?case
  proof (cases "short_path r = p")
    case True
    then show ?thesis
      using snoc
      by (simp add: inner_add_block keys_dict_set first_seen_snoc set_first_seen)
  next
    case False
    then show ?thesis using snoc by (simp add: inner_add_block)
  qed
qed

lemma grouped_blocks:
  "dict_get (dict_get (fold (\<lambda>r. add_block (short_path r) (outer_tag r) (f r)) rs []) p []) t []
     = map f (filter (\<lambda>r. short_path r = p \<and> outer_tag r = t) rs)"
proof (induction rs rule: rev_induct)
  case Nil
  show ?case by (simp add: dict_get_def)
next
  case (snoc r rs)
  show ?case
  proof (cases "short_path r = p")
    case True
    then show ?thesis using snoc by (auto simp: inner_add_block dict_get_dict_set)
  next
    case False
    then show ?thesis using snoc by (simp add: inner_add_block)
  qed
qed

lemma values_by_keys:
  "distinct (map fst d) \<Longrightarrow> map snd d = map (\<lambda>k. dict_get d k dflt) (map fst d)"
proof (induction d)
  case Nil
  show ?case by simp
next
  case (Cons kv d)
  have "dict_get (kv # d) k dflt = dict_get d k dflt" if "k \<in> set (map fst d)" for k
  proof -
    have "fst kv \<notin> set (map fst d)" using Cons.prems by (simp del: set_map)
    with that have "k \<noteq> fst kv" by blast
    then show ?thesis by (cases kv) (simp add: dict_get_def)
  qed
  then have "map (\<lambda>k. dict_get (kv # d) k dflt) (map fst d) = map (\<lambda>k. dict_get d k dflt) (map fst d)"
    by (intro map_cong refl)
  moreover have "dict_get (kv # d) (fst kv) dflt = snd kv"
    by (simp add: dict_get_def)
  moreover have "map snd d = map (\<lambda>k. dict_get d k dflt) (map fst d)"
    using Cons by simp
  ultimately show ?case by simp
qed

lemma item_is_lookup:
  assumes "distinct (map fst d)" and "(k, v) \<in> set d"
  shows "dict_get d k dflt = v"
proof -
  have "map_of d k = Some v" using assms by (rule map_of_is_SomeI)
  then show ?thesis by (simp add: dict_get_def)
qed


text \<open>The writer visits the blocks of a file tag by tag, in the order of the \<open>dict\<close>.\<close>

lemma tag_blocks_contents:
  "tag_blocks b d p t cs = Inr bs \<Longrightarrow> map snd bs = cs"
proof (induction cs arbitrary: bs)
  case Nil
  then show ?case by simp
next
  case (Cons c cs)
  from Cons.prems obtain n rest where "tag_blocks b d p t cs = Inr rest" and "bs = (n, c) # rest"
    by (simp split: sum.splits prod.splits) blast
  with Cons.IH show ?case by simp
qed


lemma file_blocks_contents:
  "file_blocks b d p inner = Inr bs \<Longrightarrow> map snd bs = concat (map snd inner)"
proof (induction inner arbitrary: bs)
  case Nil
  then show ?case by simp
next
  case (Cons item inner)
  from Cons.prems obtain xs ys where x: "tag_blocks b d p (fst item) (snd item) = Inr xs"
    and y: "file_blocks b d p inner = Inr ys" and bs: "bs = xs @ ys"
    by (simp split: sum.splits)
  show ?case using tag_blocks_contents [OF x] Cons.IH [OF y] bs by simp
qed

lemma write_files_items:
  "write_files b d xml = Inr files \<Longrightarrow>
     list_all2 (\<lambda>f item. file_short_path f = fst item
        \<and> map snd (blocks_written f) = concat (map snd (snd item))
        \<and> text_written f = full_content (blocks_written f)
        \<and> xml_block_count f = length (blocks_written f)) files xml"
proof (induction xml arbitrary: files)
  case Nil
  then show ?case by simp
next
  case (Cons item xml)
  from Cons.prems obtain blocks rest where x: "file_blocks b d (fst item) (snd item) = Inr blocks"
    and y: "write_files b d xml = Inr rest"
    and f: "files = \<lparr>file_short_path = fst item, blocks_written = blocks,
                      text_written = full_content blocks, xml_block_count = length blocks\<rparr> # rest"
    by (simp split: sum.splits)
  show ?case using file_blocks_contents [OF x] Cons.IH [OF y] f by simp
qed

text \<open>The files written, and the blocks of each file, against the recorded rows.\<close>

lemma list_all2_projection:
  "list_all2 (\<lambda>x y. g x = h y \<and> Q x y) xs ys \<Longrightarrow> map g xs = map h ys"
  by (induction xs ys rule: list_all2_induct) simp_all

lemma list_all2_member:
  "list_all2 P xs ys \<Longrightarrow> x \<in> set xs \<Longrightarrow> \<exists>y \<in> set ys. P x y"
  by (induction xs ys rule: list_all2_induct) auto

lemma single_tag_blocks:
  assumes "recorded_tags d p = [t]"
  shows "recorded_blocks b d p t =
     map (\<lambda>r. decoded b (encoding d) (content r))
       (filter (\<lambda>r. short_path r = p) (select_all (xml_data d)))"
proof -
  have "set (map outer_tag (filter (\<lambda>r. short_path r = p) (select_all (xml_data d)))) = {t}"
    using assms set_first_seen [of "map outer_tag (filter (\<lambda>r. short_path r = p) (select_all (xml_data d)))"]
    by (simp add: recorded_tags_def)
  then have "\<forall>r \<in> set (select_all (xml_data d)). short_path r = p \<longrightarrow> outer_tag r = t"
    by auto
  then have "filter (\<lambda>r. short_path r = p \<and> outer_tag r = t) (select_all (xml_data d))
      = filter (\<lambda>r. short_path r = p) (select_all (xml_data d))"
    by (intro filter_cong refl) auto
  then show ?thesis by (simp add: recorded_blocks_def)
qed

lemma written_blocks_of_file:
  assumes w: "write_xml_files b d = Inr files" and f: "f \<in> set files"
  shows "map snd (blocks_written f) =
      concat (map (recorded_blocks b d (file_short_path f)) (recorded_tags d (file_short_path f)))
    \<and> text_written f = full_content (blocks_written f)
    \<and> xml_block_count f = length (blocks_written f)"
proof -
  let ?rows = "select_all (xml_data d)"
  let ?step = "\<lambda>r. add_block (short_path r) (outer_tag r) (decoded b (encoding d) (content r))"
  let ?xml = "fold ?step ?rows []"
  from w obtain xml where g: "get_xml_data b d [] [] [] = Inr xml" and wf: "write_files b d xml = Inr files"
    by (simp add: write_xml_files_def split: sum.splits)
  from g have "group_rows b (encoding d) ?rows [] = Inr xml"
    by (simp add: get_xml_data_def)
  then have xml: "xml = ?xml" by (rule group_rows_fold)
  from list_all2_member [OF write_files_items [OF wf] f]
  obtain item where item: "item \<in> set xml"
    and p: "file_short_path f = fst item"
    and bl: "map snd (blocks_written f) = concat (map snd (snd item))"
    and tx: "text_written f = full_content (blocks_written f)"
    and ct: "xml_block_count f = length (blocks_written f)"
    by blast
  have dk: "distinct (map fst ?xml)"
    by (simp only: grouped_keys distinct_first_seen)
  have "(fst item, snd item) \<in> set ?xml" using item xml by simp
  with dk have inner: "dict_get ?xml (fst item) [] = snd item" by (rule item_is_lookup)
  have tags: "map fst (snd item) = recorded_tags d (fst item)"
    using grouped_tags [of "\<lambda>r. decoded b (encoding d) (content r)" ?rows "fst item"]
    by (simp only: inner recorded_tags_def)
  then have "distinct (map fst (snd item))" by (simp add: recorded_tags_def distinct_first_seen)
  then have "map snd (snd item) = map (\<lambda>t. dict_get (snd item) t []) (map fst (snd item))"
    by (rule values_by_keys)
  also have "\<dots> = map (recorded_blocks b d (fst item)) (recorded_tags d (fst item))"
    using grouped_blocks [of "\<lambda>r. decoded b (encoding d) (content r)" ?rows "fst item"]
    by (simp only: inner tags) (simp add: recorded_blocks_def [abs_def])
  finally show ?thesis using bl tx ct p by simp
qed

lemma written_files_paths:
  assumes w: "write_xml_files b d = Inr files"
  shows "map file_short_path files = first_seen (map short_path (select_all (xml_data d)))"
proof -
  from w obtain xml where g: "get_xml_data b d [] [] [] = Inr xml" and wf: "write_files b d xml = Inr files"
    by (simp add: write_xml_files_def split: sum.splits)
  from g have "group_rows b (encoding d) (select_all (xml_data d)) [] = Inr xml"
    by (simp add: get_xml_data_def)
  then have xml: "xml = fold (\<lambda>r. add_block (short_path r) (outer_tag r)
      (decoded b (encoding d) (content r))) (select_all (xml_data d)) []"
    by (rule group_rows_fold)
  have "map file_short_path files = map fst xml"
    using write_files_items [OF wf] by (rule list_all2_projection)
  then show ?thesis unfolding xml by (simp only: grouped_keys)
qed

text \<open>
  C2 (amended). When the assembler writes the XML files, there is one file for each
  short path in the store, in the order of first recording. The blocks written into the
  file of a path are all blocks recorded for that path, grouped by structural tag: the
  tags in the order of their first recording for the path, and the blocks of one tag in
  the order of recording. When all blocks of the path have one tag, the blocks are
  written in the order of recording, so the blocks of a modlet recorded first come
  before those of a modlet recorded second.
\<close>

theorem written_blocks_grouped_by_tag:
  assumes "write_xml_files b d = Inr files"
  shows "map file_short_path files = first_seen (map short_path (select_all (xml_data d)))
     \<and> (\<forall>f \<in> set files.
          map snd (blocks_written f) =
            concat (map (recorded_blocks b d (file_short_path f))
                      (recorded_tags d (file_short_path f)))
          \<and> text_written f = full_content (blocks_written f)
          \<and> (\<forall>t. recorded_tags d (file_short_path f) = [t] \<longrightarrow>
                map snd (blocks_written f) =
                  map (\<lambda>r. decoded b (encoding d) (content r))
                    (filter (\<lambda>r. short_path r = file_short_path f) (select_all (xml_data d)))))"
proof (intro conjI ballI allI impI)
  show "map file_short_path files = first_seen (map short_path (select_all (xml_data d)))"
    using assms by (rule written_files_paths)
next
  fix f assume f: "f \<in> set files"
  show "map snd (blocks_written f) =
      concat (map (recorded_blocks b d (file_short_path f)) (recorded_tags d (file_short_path f)))"
    using written_blocks_of_file [OF assms f] by simp
  show "text_written f = full_content (blocks_written f)"
    using written_blocks_of_file [OF assms f] by simp
  fix t assume t: "recorded_tags d (file_short_path f) = [t]"
  show "map snd (blocks_written f) =
      map (\<lambda>r. decoded b (encoding d) (content r))
        (filter (\<lambda>r. short_path r = file_short_path f) (select_all (xml_data d)))"
    using written_blocks_of_file [OF assms f] single_tag_blocks [OF t, of b] by (simp add: t)
qed

text \<open>The sample store of three recorded files, and what the assembler writes for it.\<close>

lemma sample_xml_rows:
  "select_all (xml_data sample_xml_db) =
     [\<lparr>modlet_name = ''Alpha'', unique_id = ''id'', full_path = ''/mods/Alpha/Config/items.xml'',
       short_path = ''items.xml'', outer_tag = ''items'', content = ''PGEgLz4=''\<rparr>,
      \<lparr>modlet_name = ''Alpha'', unique_id = ''id'', full_path = ''/mods/Alpha/Config/XUi/items.xml'',
       short_path = ''items.xml'', outer_tag = ''append'', content = ''PGIgLz4=''\<rparr>,
      \<lparr>modlet_name = ''Beta'', unique_id = ''id2'', full_path = ''/mods/Beta/Config/items.xml'',
       short_path = ''items.xml'', outer_tag = ''items'', content = ''PGMgLz4=''\<rparr>]"
  by (simp add: sample_xml_db_def store_xml_data_def Let_def initialize_def
      select_all_insert_or_replace select_all_empty sample_encodings)

lemma sample_xml_encoding: "encoding sample_xml_db = ''base64''"
  by (simp add: sample_xml_db_def store_xml_data_def Let_def initialize_def)

lemma sample_xml_grouped:
  "get_xml_data sample_b64decode_utf8 sample_xml_db [] [] [] =
     Inr [(''items.xml'', [(''items'', [''<a />'', ''<c />'']), (''append'', [''<b />''])])]"
  by (simp add: get_xml_data_def sample_xml_rows sample_xml_encoding sample_decodings
      add_block_def dict_get_def Let_def)

lemma sample_xml_unknown:
  "get_xml_metadata sample_b64decode_utf8 sample_xml_db ''items.xml'' t ''<a />'' = Inr (''Unknown'', ''Unknown'')"
  "get_xml_metadata sample_b64decode_utf8 sample_xml_db ''items.xml'' t ''<b />'' = Inr (''Unknown'', ''Unknown'')"
  "get_xml_metadata sample_b64decode_utf8 sample_xml_db ''items.xml'' t ''<c />'' = Inr (''Unknown'', ''Unknown'')"
  by (simp_all add: get_xml_metadata_def sample_xml_rows)

lemma sample_xml_written:
  "write_xml_files sample_b64decode_utf8 sample_xml_db = Inr [sample_items_file]"
  by (simp add: write_xml_files_def sample_xml_grouped sample_xml_unknown sample_items_file_def
      full_content_def combined_content_def)


theorem written_blocks_grouped_by_tag_witness:
  "write_xml_files sample_b64decode_utf8 sample_xml_db = Inr [sample_items_file]
   \<and> map file_short_path [sample_items_file]
       = first_seen (map short_path (select_all (xml_data sample_xml_db)))
   \<and> map snd (blocks_written sample_items_file)
       = concat (map (recorded_blocks sample_b64decode_utf8 sample_xml_db
                        (file_short_path sample_items_file))
                   (recorded_tags sample_xml_db (file_short_path sample_items_file)))"
  using written_blocks_grouped_by_tag [OF sample_xml_written] sample_xml_written
  by simp

text \<open>
  C2 as stated fails: the blocks a, b of the modlet Alpha and c of the modlet Beta were
  recorded in this order for the short path \<open>items.xml\<close>, b under another root tag
  than a and c; the file is written with the blocks in the order a, c, b, so a block
  of Beta comes before a block of Alpha.
\<close>

theorem recorded_order_counterexample:
  "map (\<lambda>r. (modlet_name r, short_path r, decoded sample_b64decode_utf8 ''base64'' (content r)))
       (select_all (xml_data sample_xml_db))
     = [(''Alpha'', ''items.xml'', ''<a />''), (''Alpha'', ''items.xml'', ''<b />''),
        (''Beta'', ''items.xml'', ''<c />'')]
   \<and> write_xml_files sample_b64decode_utf8 sample_xml_db = Inr [sample_items_file]
   \<and> map snd (blocks_written sample_items_file) = [''<a />'', ''<c />'', ''<b />'']"
  by (simp add: sample_xml_rows sample_xml_written decoded_def sample_decodings)
     (simp add: sample_items_file_def)

end
